theory Spec2Isabelle
  imports Complex_Main "HOL-Library.AList" "HOL-Library.Char_ord" "HOL-Library.List_Lexorder"
begin

section \<open>Data model\<close>

text \<open>
  Instants are whole milliseconds since the epoch, the unit of the exchange's candles and
  of every \<^verbatim>\<open>since\<close>/\<^verbatim>\<open>end_time_ms\<close> value of the fetcher. A DataFrame indexed by
  \<^verbatim>\<open>datetime\<close> is the list of its rows in file order, each row the index value paired
  with the row's cells. The functions on frames are polymorphic in the cells, so the
  fetcher's rows (with the extra \<^verbatim>\<open>symbol\<close> column) and the importer's rows share them.
  Prices are finite reals: NaN cells and float rounding are outside the model.
\<close>

type_synonym instant = int

type_synonym 'v frame = "(instant \<times> 'v) list"

record candle =
  c_open :: real
  c_high :: real
  c_low :: real
  c_close :: real
  c_volume :: real

section \<open>Merge and dedup\<close>

text \<open>
  \<^verbatim>\<open>pd.concat([a, b])\<close> stacks the rows of \<open>a\<close> above the rows of \<open>b\<close>.
\<close>

definition pd_concat :: "'v frame \<Rightarrow> 'v frame \<Rightarrow> 'v frame" where
  "pd_concat a b = a @ b"

text \<open>
  \<^verbatim>\<open>df[~df.index.duplicated(keep='last')]\<close>: \<^verbatim>\<open>duplicated(keep='last')\<close> marks every
  row whose index value occurs again further down; the mask keeps the unmarked rows, in
  their order.
\<close>

fun keep_last :: "'v frame \<Rightarrow> 'v frame" where
  "keep_last [] = []"
| "keep_last (r # rs) =
     (if fst r \<in> set (map fst rs) then keep_last rs else r # keep_last rs)"

text \<open>
  \<^verbatim>\<open>df.sort_index()\<close>: rows in ascending index order. It is only ever applied to a
  frame that \<open>keep_last\<close> has just made duplicate-free, where the order of the result
  does not depend on the sorting algorithm.
\<close>

definition sort_index :: "'v frame \<Rightarrow> 'v frame" where
  "sort_index df = sort_key fst df"

text \<open>
  The merge of \<^verbatim>\<open>update_symbols_to_now\<close> (the file exists):
  \<^verbatim>\<open>
  merged = pd.concat([existing, combined_df])
  merged = merged[~merged.index.duplicated(keep='last')]
  merged.sort_index(inplace=True)
  \<close>
\<close>

definition merge_dedup :: "'v frame \<Rightarrow> 'v frame \<Rightarrow> 'v frame" where
  "merge_dedup existing combined_df = sort_index (keep_last (pd_concat existing combined_df))"

text \<open>
  The merge of \<^verbatim>\<open>write_month_partition\<close>:
  \<^verbatim>\<open>
  combined = pd.concat([existing, df]) if not existing.empty else df.copy()
  combined = combined[~combined.index.duplicated(keep='last')]
  combined = combined.sort_index()
  \<close>
\<close>

definition month_combined :: "'v frame \<Rightarrow> 'v frame \<Rightarrow> 'v frame" where
  "month_combined existing df =
     sort_index (keep_last (if existing \<noteq> [] then pd_concat existing df else df))"

section \<open>Candle fetch client\<close>

text \<open>
  The rows \<^verbatim>\<open>fetch_ohlcv_safe\<close> returns carry the five price columns and the
  \<^verbatim>\<open>symbol\<close> column it adds.
\<close>

record fetched = candle +
  c_symbol :: string

text \<open>
  The exchange library is outside the repository. It is a parameter: the answer to the
  \<open>n\<close>-th request made so far, for a symbol, a timeframe, a \<^verbatim>\<open>since\<close> and a limit, is
  an exception (its message) or a list of raw rows
  \<^verbatim>\<open>[timestamp, open, high, low, close, volume]\<close>. Taking the request number as an
  argument lets the exchange answer the same request differently over time.
\<close>

type_synonym exchange =
  "nat \<Rightarrow> string \<Rightarrow> string \<Rightarrow> instant option \<Rightarrow> nat \<Rightarrow> string + candle frame"

text \<open>
  \<^verbatim>\<open>fetch_ohlcv_safe\<close>: an exception of the exchange and an empty answer both give the
  empty frame; otherwise the rows, indexed by their timestamp, with the symbol column.
\<close>

definition fetch_ohlcv_safe ::
  "exchange \<Rightarrow> nat \<Rightarrow> string \<Rightarrow> string \<Rightarrow> instant option \<Rightarrow> nat \<Rightarrow> fetched frame" where
  "fetch_ohlcv_safe ex n symbol timeframe since limit =
     (case ex n symbol timeframe since limit of
        Inl e \<Rightarrow> []
      | Inr ohlcv \<Rightarrow>
          map (\<lambda>(ts, c). (ts, \<lparr>c_open = c_open c, c_high = c_high c, c_low = c_low c,
                               c_close = c_close c, c_volume = c_volume c, c_symbol = symbol\<rparr>))
            ohlcv)"

section \<open>Chunked range fetch\<close>

text \<open>
  The \<^verbatim>\<open>while True\<close> loop of \<^verbatim>\<open>update_symbols_to_now\<close> (the loop of
  \<^verbatim>\<open>fetch_historical_data\<close> is the same text with \<^verbatim>\<open>all_data\<close> for
  \<^verbatim>\<open>all_chunks\<close>):
  \<^verbatim>\<open>
  while True:
      df = self.fetch_ohlcv_safe(symbol, timeframe, current_since, 1000)
      if df.empty: break
      all_chunks.append(df)
      last_ts = int(df.index[-1].timestamp() * 1000)
      if last_ts >= end_time_ms:
          df = df[df.index <= pd.to_datetime(end_time_ms, unit='ms')]
          all_chunks[-1] = df
          break
      if len(df) < 1000: break
      current_since = int(df.index[-1].timestamp() * 1000) + 1
  \<close>
  The source has no iteration bound, so the loop is a partial function: \<open>None\<close> is a
  run that never leaves the loop. The result is the list of chunks and the number of
  requests made so far.
\<close>

partial_function (option) chunk_loop ::
  "exchange \<Rightarrow> string \<Rightarrow> string \<Rightarrow> instant \<Rightarrow> nat \<Rightarrow> instant \<Rightarrow> fetched frame list
     \<Rightarrow> (fetched frame list \<times> nat) option" where
  "chunk_loop ex symbol timeframe end_time n current_since all_chunks =
     (let df = fetch_ohlcv_safe ex n symbol timeframe (Some current_since) 1000 in
      if df = [] then Some (all_chunks, Suc n)
      else
        let all_chunks = all_chunks @ [df];
            last_ts = fst (last df)
        in if end_time \<le> last_ts then
             Some (all_chunks[length all_chunks - 1 := filter (\<lambda>r. fst r \<le> end_time) df],
                   Suc n)
           else if length df < 1000 then Some (all_chunks, Suc n)
           else chunk_loop ex symbol timeframe end_time (Suc n) (last_ts + 1) all_chunks)"

text \<open>
  The loop starts with \<^verbatim>\<open>current_since = since_ms\<close> and \<^verbatim>\<open>all_chunks = []\<close>.
\<close>

definition fetch_range ::
  "exchange \<Rightarrow> string \<Rightarrow> string \<Rightarrow> instant \<Rightarrow> instant \<Rightarrow> nat
     \<Rightarrow> (fetched frame list \<times> nat) option" where
  "fetch_range ex symbol timeframe start end_time n =
     chunk_loop ex symbol timeframe end_time n start []"

text \<open>
  After the loop the chunks are combined:
  \<^verbatim>\<open>
  combined_df = pd.concat(all_chunks)
  combined_df = combined_df[~combined_df.index.duplicated(keep='last')]
  combined_df.sort_index(inplace=True)
  \<close>
\<close>

definition combine_chunks :: "'v frame list \<Rightarrow> 'v frame" where
  "combine_chunks all_chunks = sort_index (keep_last (concat all_chunks))"

text \<open>
  The Chunked Range Fetcher as the specification words it, for any way of fetching the
  page of request \<open>n\<close> at a cursor and any requested page size: one rule for each way an
  iteration can go. \<open>spec_chunked_fetch page size end n cursor pages result\<close> says that the
  loop, entered before request \<open>n\<close> with the cursor and the pages appended so far, stops
  with \<open>result\<close>.
\<close>

inductive spec_chunked_fetch ::
  "(nat \<Rightarrow> instant \<Rightarrow> 'v frame) \<Rightarrow> nat \<Rightarrow> instant \<Rightarrow> nat \<Rightarrow> instant \<Rightarrow> 'v frame list
     \<Rightarrow> 'v frame list \<Rightarrow> bool"
  for page :: "nat \<Rightarrow> instant \<Rightarrow> 'v frame" and page_size :: nat and end_time :: instant where
  empty_page_stops:
    "page n cursor = [] \<Longrightarrow> spec_chunked_fetch page page_size end_time n cursor pages pages"
| reached_end_trims_and_stops:
    "page n cursor = p \<Longrightarrow> p \<noteq> [] \<Longrightarrow> end_time \<le> fst (last p) \<Longrightarrow>
     spec_chunked_fetch page page_size end_time n cursor pages
       (pages @ [filter (\<lambda>r. fst r \<le> end_time) p])"
| short_page_stops:
    "page n cursor = p \<Longrightarrow> p \<noteq> [] \<Longrightarrow> fst (last p) < end_time \<Longrightarrow> length p < page_size \<Longrightarrow>
     spec_chunked_fetch page page_size end_time n cursor pages (pages @ [p])"
| full_page_advances:
    "page n cursor = p \<Longrightarrow> p \<noteq> [] \<Longrightarrow> fst (last p) < end_time \<Longrightarrow> page_size \<le> length p \<Longrightarrow>
     spec_chunked_fetch page page_size end_time (Suc n) (fst (last p) + 1) (pages @ [p]) result \<Longrightarrow>
     spec_chunked_fetch page page_size end_time n cursor pages result"

section \<open>Incremental resume\<close>

text \<open>
  The Python exceptions of the modelled code that no handler catches.
\<close>

datatype error = TypeError | IndexError

text \<open>
  String helpers: \<^verbatim>\<open>s.endswith(c)\<close>, \<^verbatim>\<open>s.replace(c, '')\<close>, \<^verbatim>\<open>s.isdigit()\<close> and
  \<^verbatim>\<open>int(s)\<close> on a string of decimal digits (timeframes are ASCII).
\<close>

definition endswith :: "string \<Rightarrow> char \<Rightarrow> bool" where
  "endswith s c = (s \<noteq> [] \<and> last s = c)"

definition remove_char :: "char \<Rightarrow> string \<Rightarrow> string" where
  "remove_char c s = filter (\<lambda>x. x \<noteq> c) s"

definition isdigit :: "string \<Rightarrow> bool" where
  "isdigit s = (s \<noteq> [] \<and> list_all (\<lambda>c. c \<in> set ''0123456789'') s)"

definition py_int :: "string \<Rightarrow> int" where
  "py_int s = foldl (\<lambda>a c. 10 * a + (of_char c - 48)) 0 s"

text \<open>\<^verbatim>\<open>timedelta(hours=n)\<close> and \<^verbatim>\<open>timedelta(days=n)\<close> in milliseconds.\<close>

definition hours :: "int \<Rightarrow> int" where
  "hours n = n * 3600000"

definition days :: "int \<Rightarrow> int" where
  "days n = n * 86400000"

text \<open>
  The interval of a timeframe, as \<^verbatim>\<open>update_symbols_to_now\<close> computes it:
  \<^verbatim>\<open>
  if timeframe.endswith('h'):
      n = int(timeframe.replace('h','')) if timeframe.replace('h','').isdigit() else 1
      interval = timedelta(hours=n)
  elif timeframe.endswith('d'):
      n = int(timeframe.replace('d','')) if timeframe.replace('d','').isdigit() else 1
      interval = timedelta(days=n)
  else:
      # fallback: assume hours
      interval = timedelta(hours=1)
  \<close>
\<close>

definition timeframe_interval :: "string \<Rightarrow> int" where
  "timeframe_interval timeframe =
     (if endswith timeframe CHR ''h'' then
        hours (if isdigit (remove_char CHR ''h'' timeframe)
               then py_int (remove_char CHR ''h'' timeframe) else 1)
      else if endswith timeframe CHR ''d'' then
        days (if isdigit (remove_char CHR ''d'' timeframe)
              then py_int (remove_char CHR ''d'' timeframe) else 1)
      else hours 1)"

text \<open>
  \<^verbatim>\<open>datetime.timestamp()\<close> on a naive \<^verbatim>\<open>datetime\<close>, as \<^verbatim>\<open>datetime.utcnow()\<close> and
  every value computed from it are: Python reads the wall-clock value as local time, so
  the instant it returns is the value minus the UTC offset of the machine's time zone at
  that wall-clock value. The time zone is a parameter, the offset in milliseconds at a
  wall-clock value; it is constantly 0 when the machine runs in UTC. (The \<^verbatim>\<open>timestamp()\<close>
  of a naive pandas \<^verbatim>\<open>Timestamp\<close>, as an index value read from a CSV is, reads the value
  as UTC.) Values are whole milliseconds.
\<close>

definition naive_timestamp :: "(instant \<Rightarrow> int) \<Rightarrow> instant \<Rightarrow> instant" where
  "naive_timestamp local_offset dt = dt - local_offset dt"

text \<open>
  Where to resume. \<open>existing\<close> is the canonical CSV (\<open>None\<close>: no file); \<open>days_back\<close> is
  \<open>None\<close> when the caller passes Python's \<^verbatim>\<open>None\<close>; \<open>now_utc\<close> is the value of
  \<^verbatim>\<open>datetime.utcnow()\<close>.
  \<^verbatim>\<open>
  if filepath.exists():
      existing = pd.read_csv(filepath, index_col='datetime', parse_dates=True)
      last_ts = existing.index[-1]
      since_dt = last_ts - overlap * interval
      since_ms = int(since_dt.timestamp() * 1000)
  else:
      since_dt = now_utc - timedelta(days=days_back)
      since_ms = int(since_dt.timestamp() * 1000)
  \<close>
  \<^verbatim>\<open>existing.index[-1]\<close> raises IndexError on a file without rows, and
  \<^verbatim>\<open>timedelta(days=None)\<close> raises TypeError; neither is inside a \<^verbatim>\<open>try\<close>. In the first
  branch \<^verbatim>\<open>since_dt\<close> is a pandas \<^verbatim>\<open>Timestamp\<close>, in the second a naive \<^verbatim>\<open>datetime\<close>.
\<close>

definition since_ms ::
  "(instant \<Rightarrow> int) \<Rightarrow> string \<Rightarrow> int option \<Rightarrow> int \<Rightarrow> instant \<Rightarrow> 'v frame option
     \<Rightarrow> error + instant" where
  "since_ms local_offset timeframe days_back overlap now_utc existing_file =
     (case existing_file of
        Some existing \<Rightarrow>
          (if existing = [] then Inl IndexError
           else Inr (fst (last existing) - overlap * timeframe_interval timeframe))
      | None \<Rightarrow>
          (case days_back of
             None \<Rightarrow> Inl TypeError
           | Some d \<Rightarrow> Inr (naive_timestamp local_offset (now_utc - days d))))"

text \<open>
  The end of the window: now, or the last millisecond of yesterday, both naive values
  of which the code takes the \<^verbatim>\<open>timestamp()\<close>.
  \<^verbatim>\<open>
  if include_now:
      end_time_ms = int(now_utc.timestamp() * 1000)
  else:
      start_of_today = datetime(now_utc.year, now_utc.month, now_utc.day)
      end_time_ms = int((start_of_today - timedelta(milliseconds=1)).timestamp() * 1000)
  \<close>
\<close>

definition end_time_ms :: "(instant \<Rightarrow> int) \<Rightarrow> bool \<Rightarrow> instant \<Rightarrow> instant" where
  "end_time_ms local_offset include_now now_utc =
     naive_timestamp local_offset
       (if include_now then now_utc else (now_utc div 86400000) * 86400000 - 1)"

text \<open>
  The bar duration a timeframe string denotes in the exchange's notation, an amount
  followed by a unit letter (\<^verbatim>\<open>1m\<close> one minute, \<^verbatim>\<open>1h\<close> one hour, \<^verbatim>\<open>1d\<close> one day), in
  milliseconds. This is the \<open>\<Delta>\<close> the specification of the Resume Planner speaks of; the
  code above does not use it.
\<close>

definition spec_bar_duration :: "string \<Rightarrow> int option" where
  "spec_bar_duration timeframe =
     (if timeframe \<noteq> [] \<and> isdigit (butlast timeframe) then
        (if last timeframe = CHR ''s'' then Some (py_int (butlast timeframe) * 1000)
         else if last timeframe = CHR ''m'' then Some (py_int (butlast timeframe) * 60000)
         else if last timeframe = CHR ''h'' then Some (py_int (butlast timeframe) * 3600000)
         else if last timeframe = CHR ''d'' then Some (py_int (butlast timeframe) * 86400000)
         else if last timeframe = CHR ''w'' then Some (py_int (butlast timeframe) * 604800000)
         else None)
      else None)"

section \<open>Manifest of the fetcher\<close>

text \<open>
  A number written to a manifest: a key that is absent, \<^verbatim>\<open>None\<close>, a finite number, or
  one of the non-finite floats.
\<close>

datatype yaml_value = Missing | Null | Number real | PlusInf | MinusInf | NotANumber

text \<open>
  Division of two numpy floats: dividing by zero raises nothing, it gives an infinity or
  NaN. Subtracting 1 and multiplying by 100 keep a non-finite value.
\<close>

definition np_true_divide :: "real \<Rightarrow> real \<Rightarrow> yaml_value" where
  "np_true_divide a b =
     (if b \<noteq> 0 then Number (a / b)
      else if 0 < a then PlusInf else if a < 0 then MinusInf else NotANumber)"

fun as_pct :: "yaml_value \<Rightarrow> yaml_value" where
  "as_pct (Number q) = Number ((q - 1) * 100)"
| "as_pct v = v"

text \<open>
  \<^verbatim>\<open>save_data\<close> and \<^verbatim>\<open>update_symbols_to_now\<close>:
  \<^verbatim>\<open>
  total_return_pct = None
  try:
      if 'close' in final_df.columns and len(final_df['close']) >= 2:
          total_return_pct = float((final_df['close'].iloc[-1] / final_df['close'].iloc[0] - 1) * 100)
  except Exception:
      total_return_pct = None
  \<close>
\<close>

definition total_return_pct :: "('a candle_scheme) frame \<Rightarrow> yaml_value" where
  "total_return_pct final_df =
     (if 2 \<le> length final_df
      then as_pct (np_true_divide (c_close (snd (last final_df))) (c_close (snd (hd final_df))))
      else Null)"

record symbol_meta =
  meta_symbol :: string
  meta_timeframe :: string
  meta_rows :: nat
  meta_start_date :: instant
  meta_end_date :: instant
  meta_total_return_pct :: yaml_value

text \<open>
  The summary fields of the per-symbol manifest. \<^verbatim>\<open>final_df.index[0]\<close> raises on a
  frame without rows; in \<^verbatim>\<open>update_symbols_to_now\<close> the handler around the manifest
  block catches it and no manifest is written (\<open>None\<close>). The per-column statistics
  (min, max, mean, median, std) are float reductions and are not modelled.
\<close>

definition symbol_manifest :: "string \<Rightarrow> string \<Rightarrow> fetched frame \<Rightarrow> symbol_meta option" where
  "symbol_manifest symbol timeframe final_df =
     (if final_df = [] then None
      else Some \<lparr>meta_symbol = symbol, meta_timeframe = timeframe,
                 meta_rows = length final_df,
                 meta_start_date = fst (hd final_df), meta_end_date = fst (last final_df),
                 meta_total_return_pct = total_return_pct final_df\<rparr>)"

section \<open>Update to now\<close>

text \<open>
  The files under \<^verbatim>\<open>data/crypto/USDT\<close>: the CSV partitions and the YAML manifests by
  path, and the number of requests made to the exchange so far.
\<close>

record store =
  files :: "string \<rightharpoonup> fetched frame"
  manifests :: "string \<rightharpoonup> symbol_meta"
  requests :: nat

text \<open>\<^verbatim>\<open>symbol.split('/')[0]\<close> and the paths built from it.\<close>

definition base_of :: "string \<Rightarrow> string" where
  "base_of symbol = takeWhile (\<lambda>c. c \<noteq> CHR ''/'') symbol"

definition canonical_csv :: "string \<Rightarrow> string \<Rightarrow> string" where
  "canonical_csv symbol timeframe =
     base_of symbol @ ''/crypto_'' @ base_of symbol @ ''_USDT_'' @ timeframe @ ''.csv''"

definition manifest_yaml :: "string \<Rightarrow> string \<Rightarrow> string" where
  "manifest_yaml symbol timeframe = base_of symbol @ ''/manifest_'' @ timeframe @ ''.yaml''"

text \<open>
  The part of the loop body of \<^verbatim>\<open>update_symbols_to_now\<close> after the fetch: combine the
  chunks, merge them into the file, record the result, and write the manifest.
  \<^verbatim>\<open>
  if all_chunks:
      combined_df = ...
      if filepath.exists():
          existing = pd.read_csv(...)
          merged = ...; merged.to_csv(filepath); final_df = merged
      else:
          combined_df.to_csv(filepath); final_df = combined_df
      results[symbol] = final_df
  else:
      if filepath.exists():
          results[symbol] = pd.read_csv(...)
  try:
      if symbol in results: final_df = results[symbol]
      else:
          if filepath.exists(): final_df = pd.read_csv(...)
          else: continue
      ... write the manifest ...
  except Exception as e: print(...)
  \<close>
\<close>

definition store_chunks ::
  "string \<Rightarrow> string \<Rightarrow> fetched frame list \<Rightarrow> store \<times> (string \<rightharpoonup> fetched frame)
     \<Rightarrow> store \<times> (string \<rightharpoonup> fetched frame)" where
  "store_chunks symbol timeframe all_chunks sr =
     (let st = fst sr; results = snd sr; filepath = canonical_csv symbol timeframe in
      if all_chunks \<noteq> [] then
        (let combined_df = combine_chunks all_chunks;
             final_df = (case files st filepath of
                           Some existing \<Rightarrow> merge_dedup existing combined_df
                         | None \<Rightarrow> combined_df)
         in (st\<lparr>files := (files st)(filepath \<mapsto> final_df)\<rparr>, results(symbol \<mapsto> final_df)))
      else
        (case files st filepath of
           Some existing \<Rightarrow> (st, results(symbol \<mapsto> existing))
         | None \<Rightarrow> (st, results)))"

definition write_symbol_manifest ::
  "string \<Rightarrow> string \<Rightarrow> store \<times> (string \<rightharpoonup> fetched frame)
     \<Rightarrow> store \<times> (string \<rightharpoonup> fetched frame)" where
  "write_symbol_manifest symbol timeframe sr =
     (let st = fst sr; results = snd sr;
          final = (case results symbol of
                     Some final_df \<Rightarrow> Some final_df
                   | None \<Rightarrow> files st (canonical_csv symbol timeframe))
      in case final of
           None \<Rightarrow> sr
         | Some final_df \<Rightarrow>
             (case symbol_manifest symbol timeframe final_df of
                None \<Rightarrow> sr
              | Some meta \<Rightarrow>
                  (st\<lparr>manifests := (manifests st)(manifest_yaml symbol timeframe \<mapsto> meta)\<rparr>,
                   results)))"

text \<open>
  One iteration of \<^verbatim>\<open>for symbol in symbols\<close>: plan the resume point, fetch the range,
  store. \<open>None\<close> is a fetch loop that never ends; \<open>Some (Inl e)\<close> is the exception \<open>e\<close>
  leaving \<^verbatim>\<open>update_symbols_to_now\<close>.
\<close>

definition update_symbol ::
  "exchange \<Rightarrow> (instant \<Rightarrow> int) \<Rightarrow> string \<Rightarrow> int option \<Rightarrow> int \<Rightarrow> bool \<Rightarrow> instant \<Rightarrow> string
     \<Rightarrow> store \<times> (string \<rightharpoonup> fetched frame)
     \<Rightarrow> (error + store \<times> (string \<rightharpoonup> fetched frame)) option" where
  "update_symbol ex local_offset timeframe days_back overlap include_now now_utc symbol sr =
     (case since_ms local_offset timeframe days_back overlap now_utc
             (files (fst sr) (canonical_csv symbol timeframe)) of
        Inl e \<Rightarrow> Some (Inl e)
      | Inr since \<Rightarrow>
          (case fetch_range ex symbol timeframe since (end_time_ms local_offset include_now now_utc)
                  (requests (fst sr)) of
             None \<Rightarrow> None
           | Some (all_chunks, n) \<Rightarrow>
               Some (Inr (write_symbol_manifest symbol timeframe
                            (store_chunks symbol timeframe all_chunks
                               ((fst sr)\<lparr>requests := n\<rparr>, snd sr))))))"

fun update_loop ::
  "exchange \<Rightarrow> (instant \<Rightarrow> int) \<Rightarrow> string \<Rightarrow> int option \<Rightarrow> int \<Rightarrow> bool \<Rightarrow> instant \<Rightarrow> string list
     \<Rightarrow> store \<times> (string \<rightharpoonup> fetched frame)
     \<Rightarrow> (error + store \<times> (string \<rightharpoonup> fetched frame)) option" where
  "update_loop ex local_offset timeframe days_back overlap include_now now_utc [] sr = Some (Inr sr)"
| "update_loop ex local_offset timeframe days_back overlap include_now now_utc (symbol # symbols) sr =
     (case update_symbol ex local_offset timeframe days_back overlap include_now now_utc symbol sr of
        None \<Rightarrow> None
      | Some (Inl e) \<Rightarrow> Some (Inl e)
      | Some (Inr sr') \<Rightarrow>
          update_loop ex local_offset timeframe days_back overlap include_now now_utc symbols sr')"

definition update_symbols_to_now ::
  "exchange \<Rightarrow> (instant \<Rightarrow> int) \<Rightarrow> instant \<Rightarrow> store \<Rightarrow> string list \<Rightarrow> string \<Rightarrow> int option \<Rightarrow> int \<Rightarrow> bool
     \<Rightarrow> (error + store \<times> (string \<rightharpoonup> fetched frame)) option" where
  "update_symbols_to_now ex local_offset now_utc st symbols timeframe days_back overlap include_now =
     update_loop ex local_offset timeframe days_back overlap include_now now_utc symbols (st, Map.empty)"

text \<open>
  \<^verbatim>\<open>scripts/update_symbol_latest.py\<close>, called with at least one symbol:
  \<^verbatim>\<open>
  symbols = [normalize_symbol(s) for s in args.symbols]
  results = fetcher.update_symbols_to_now(symbols=symbols, timeframe=args.timeframe,
      days_back=None, overlap=args.overlap, include_now=args.include_today)
  \<close>
\<close>

definition upper :: "string \<Rightarrow> string" where
  "upper s =
     map (\<lambda>c. case map_of (zip ''abcdefghijklmnopqrstuvwxyz'' ''ABCDEFGHIJKLMNOPQRSTUVWXYZ'') c of
                 Some u \<Rightarrow> u
               | None \<Rightarrow> c) s"

definition normalize_symbol :: "string \<Rightarrow> string" where
  "normalize_symbol s =
     (if CHR ''/'' \<in> set (upper s) then upper s else upper s @ ''/USDT'')"

definition update_symbol_latest ::
  "exchange \<Rightarrow> (instant \<Rightarrow> int) \<Rightarrow> instant \<Rightarrow> store \<Rightarrow> string list \<Rightarrow> string \<Rightarrow> int \<Rightarrow> bool
     \<Rightarrow> (error + store \<times> (string \<rightharpoonup> fetched frame)) option" where
  "update_symbol_latest ex local_offset now_utc st args_symbols args_timeframe args_overlap args_include_today =
     update_symbols_to_now ex local_offset now_utc st (map normalize_symbol args_symbols) args_timeframe
       None args_overlap args_include_today"

section \<open>Saving fetched data\<close>

text \<open>
  \<^verbatim>\<open>save_data\<close>, the frame a symbol's file holds afterwards:
  \<^verbatim>\<open>
  if filepath.exists():
      existing = pd.read_csv(filepath, index_col='datetime', parse_dates=True)
      last_ts = existing.index[-1]
      new_rows = df[df.index > last_ts]
      if not new_rows.empty:
          combined = pd.concat([existing, new_rows])
          combined = combined[~combined.index.duplicated(keep='last')]
          combined.sort_index(inplace=True)
          combined.to_csv(filepath)
          final_df = combined
      else:
          final_df = existing
  else:
      df.to_csv(filepath)
      final_df = df
  \<close>
\<close>

definition save_final :: "'v frame \<Rightarrow> 'v frame option \<Rightarrow> error + 'v frame" where
  "save_final df existing_file =
     (case existing_file of
        Some existing \<Rightarrow>
          (if existing = [] then Inl IndexError
           else
             let last_ts = fst (last existing);
                 new_rows = filter (\<lambda>r. last_ts < fst r) df
             in if new_rows \<noteq> []
                then Inr (sort_index (keep_last (pd_concat existing new_rows)))
                else Inr existing)
      | None \<Rightarrow> Inr df)"

definition safe_symbol :: "string \<Rightarrow> string" where
  "safe_symbol symbol = map (\<lambda>c. if c = CHR ''/'' then CHR ''_'' else c) symbol"

definition save_csv :: "string \<Rightarrow> string \<Rightarrow> string" where
  "save_csv symbol timeframe =
     base_of symbol @ ''/crypto_'' @ safe_symbol symbol @ ''_'' @ timeframe @ ''.csv''"

text \<open>
  \<^verbatim>\<open>save_data\<close> over the items of \<^verbatim>\<open>data_dict\<close>, in order: a symbol with an empty
  frame is skipped; the others update their file and manifest and add to the totals
  \<^verbatim>\<open>total_symbols\<close> and \<^verbatim>\<open>total_rows\<close> of the returned dictionary. The MD5 of the
  file is not modelled.
\<close>

fun save_data ::
  "(string \<times> fetched frame) list \<Rightarrow> string \<Rightarrow> store \<times> nat \<times> nat
     \<Rightarrow> error + store \<times> nat \<times> nat" where
  "save_data [] timeframe acc = Inr acc"
| "save_data ((symbol, df) # items) timeframe (st, total_symbols, total_rows) =
     (if df = [] then save_data items timeframe (st, total_symbols, total_rows)
      else
        case save_final df (files st (save_csv symbol timeframe)) of
          Inl e \<Rightarrow> Inl e
        | Inr final_df \<Rightarrow>
            save_data items timeframe
              (st\<lparr>files := (files st)(save_csv symbol timeframe \<mapsto> final_df),
                  manifests :=
                    (case symbol_manifest symbol timeframe final_df of
                       None \<Rightarrow> manifests st
                     | Some meta \<Rightarrow> (manifests st)(manifest_yaml symbol timeframe \<mapsto> meta))\<rparr>,
               total_symbols + 1, total_rows + length final_df))"

text \<open>
  A frame keeps what another holds at a timestamp when the value looked up there (the
  value of the last row with that index, or none) is the same, and, when the other frame
  has one row per timestamp, the rows there are the same rows.
\<close>

definition kept_at :: "instant \<Rightarrow> 'v frame \<Rightarrow> 'v frame \<Rightarrow> bool" where
  "kept_at t existing final \<longleftrightarrow>
     map_of (rev final) t = map_of (rev existing) t \<and>
     (distinct (map fst existing) \<longrightarrow>
        filter (\<lambda>r. fst r = t) final = filter (\<lambda>r. fst r = t) existing)"

section \<open>Bundle import\<close>

text \<open>
  In this section index values are microseconds since the epoch, the finest unit a
  bundle uses.
\<close>

datatype time_unit = Microseconds | Milliseconds | Seconds

text \<open>
  \<^verbatim>\<open>read_bundle_csv\<close> on the \<^verbatim>\<open>open_time\<close> column, an int64 column after
  \<^verbatim>\<open>astype('int64')\<close>:
  \<^verbatim>\<open>
  max_ot = df['open_time'].abs().max() if not df['open_time'].empty else 0
  if max_ot > 1e14: unit = 'us'
  elif max_ot > 1e11: unit = 'ms'
  else: unit = 's'
  \<close>
  The absolute value of an int64 wraps at the least value, which is its own negation.
\<close>

definition np_abs :: "int \<Rightarrow> int" where
  "np_abs x = (if x = - (2 ^ 63) then x else \<bar>x\<bar>)"

definition max_ot :: "int list \<Rightarrow> int" where
  "max_ot open_time =
     (case map np_abs open_time of
        [] \<Rightarrow> 0
      | x # xs \<Rightarrow> fold max xs x)"

definition open_time_unit :: "int \<Rightarrow> time_unit" where
  "open_time_unit m =
     (if m > 10 ^ 14 then Microseconds
      else if m > 10 ^ 11 then Milliseconds
      else Seconds)"

text \<open>
  \<^verbatim>\<open>pd.to_datetime(df['open_time'], unit=unit, utc=True, errors='coerce')\<close>: the instant
  of an open time in the detected unit; a value outside the nanosecond range of a
  Timestamp becomes NaT (\<open>None\<close>).
\<close>

definition to_datetime :: "time_unit \<Rightarrow> int \<Rightarrow> instant option" where
  "to_datetime u x =
     (let us = x * (case u of Microseconds \<Rightarrow> 1 | Milliseconds \<Rightarrow> 1000 | Seconds \<Rightarrow> 1000000)
      in if \<bar>us\<bar> * 1000 < 2 ^ 63 then Some us else None)"

text \<open>
  A bundle file as read: per row the \<^verbatim>\<open>open_time\<close> cell after
  \<^verbatim>\<open>pd.to_numeric(..., errors='coerce')\<close> (\<open>None\<close> when it is not a number) and the other
  cells. \<^verbatim>\<open>read_bundle_csv\<close> drops the rows without an open time, detects the unit from
  the rest, converts, and drops the rows whose instant is NaT.
\<close>

definition read_bundle_csv :: "(int option \<times> 'v) list \<Rightarrow> 'v frame" where
  "read_bundle_csv rows =
     (let df = List.map_filter (\<lambda>(ot, v). map_option (\<lambda>t. (t, v)) ot) rows;
          u = open_time_unit (max_ot (map fst df))
      in List.map_filter (\<lambda>(t, v). map_option (\<lambda>d. (d, v)) (to_datetime u t)) df)"

text \<open>
  \<^verbatim>\<open>write_month_partition\<close>, the return of the month's manifest:
  \<^verbatim>\<open>
  if not combined.empty:
      first_close = float(combined['close'].iloc[0])
      last_close = float(combined['close'].iloc[-1])
      total_return_pct = (last_close / first_close - 1.0) * 100.0 if first_close != 0 else None
      mdata['total_return_pct'] = total_return_pct
  \<close>
\<close>

definition month_total_return_pct :: "('a candle_scheme) frame \<Rightarrow> yaml_value" where
  "month_total_return_pct combined =
     (if combined = [] then Missing
      else
        let first_close = c_close (snd (hd combined));
            last_close = c_close (snd (last combined))
        in if first_close \<noteq> 0 then Number ((last_close / first_close - 1) * 100) else Null)"

record month_info =
  info_rows :: nat
  info_start_date :: "instant option"
  info_end_date :: "instant option"

record month_manifest =
  mm_rows :: nat
  mm_start_date :: "instant option"
  mm_end_date :: "instant option"
  mm_total_return_pct :: yaml_value

record year_manifest =
  y_year :: string
  y_months :: "(string \<times> month_info) list"
  y_rows :: nat

record import_store =
  partitions :: "string \<rightharpoonup> candle frame"
  month_manifests :: "string \<rightharpoonup> month_manifest"
  year_manifests :: "string \<rightharpoonup> year_manifest"

definition index_min :: "'v frame \<Rightarrow> instant option" where
  "index_min df = (case map fst df of [] \<Rightarrow> None | t # ts \<Rightarrow> Some (fold min ts t))"

definition index_max :: "'v frame \<Rightarrow> instant option" where
  "index_max df = (case map fst df of [] \<Rightarrow> None | t # ts \<Rightarrow> Some (fold max ts t))"

text \<open>\<^verbatim>\<open>mon.split('-')[0]\<close> and the month after the dash.\<close>

definition year_of :: "string \<Rightarrow> string" where
  "year_of mon = takeWhile (\<lambda>c. c \<noteq> CHR ''-'') mon"

definition partition_dir :: "string \<Rightarrow> string \<Rightarrow> string \<Rightarrow> string" where
  "partition_dir base timeframe year_month =
     base @ ''/'' @ timeframe @ ''/'' @ year_of year_month @ ''/''
       @ drop (Suc (length (year_of year_month))) year_month"

definition partition_csv :: "string \<Rightarrow> string \<Rightarrow> string \<Rightarrow> string" where
  "partition_csv base timeframe year_month =
     partition_dir base timeframe year_month @ ''/crypto_'' @ base @ ''_USDT_'' @ timeframe @ ''.csv''"

definition month_manifest_yaml :: "string \<Rightarrow> string \<Rightarrow> string \<Rightarrow> string" where
  "month_manifest_yaml base timeframe year_month =
     partition_dir base timeframe year_month @ ''/manifest_'' @ timeframe @ ''_'' @ year_month @ ''.yaml''"

text \<open>
  \<^verbatim>\<open>write_month_partition\<close>: merge the month's rows into the month's partition, write
  it and its manifest unless \<^verbatim>\<open>dry_run\<close>, and return the month's info. With
  \<^verbatim>\<open>force\<close> the old file is unlinked just before it is written again, after it has
  been read and merged, so the flag changes nothing. Checksums and the \<^verbatim>\<open>updated\<close>
  time are not modelled.
\<close>

definition write_month_partition ::
  "candle frame \<Rightarrow> string \<Rightarrow> string \<Rightarrow> string \<Rightarrow> bool \<Rightarrow> bool \<Rightarrow> import_store
     \<Rightarrow> import_store \<times> month_info" where
  "write_month_partition df base timeframe year_month dry_run force st =
     (let out_path = partition_csv base timeframe year_month;
          existing = (case partitions st out_path of
                        Some stored \<Rightarrow> if \<not> dry_run then stored else []
                      | None \<Rightarrow> []);
          combined = month_combined existing df;
          info = \<lparr>info_rows = length combined, info_start_date = index_min combined,
                   info_end_date = index_max combined\<rparr>;
          mdata = \<lparr>mm_rows = info_rows info, mm_start_date = info_start_date info,
                    mm_end_date = info_end_date info,
                    mm_total_return_pct = month_total_return_pct combined\<rparr>
      in if dry_run then (st, info)
         else (st\<lparr>partitions := (partitions st)(out_path \<mapsto> combined),
                   month_manifests :=
                     (month_manifests st)(month_manifest_yaml base timeframe year_month \<mapsto> mdata)\<rparr>,
               info))"

text \<open>
  A bundle file found for the symbol: the stem of its name, and its rows, or \<open>None\<close>
  when \<^verbatim>\<open>read_bundle_csv\<close> raises on it (no CSV inside, fewer than 6 columns).
\<close>

type_synonym bundle_file = "string \<times> (int option \<times> candle) list option"

definition ends_with :: "string \<Rightarrow> string \<Rightarrow> bool" where
  "ends_with s suffix =
     (length suffix \<le> length s \<and> drop (length s - length suffix) s = suffix)"

text \<open>
  One month of \<^verbatim>\<open>main\<close>: \<open>fps\<close> are the month's files in the order of their sorted
  paths, so \<^verbatim>\<open>sorted(fps)\<close> is \<open>fps\<close>.
  \<^verbatim>\<open>
  monthly_file = next((f for f in fps if f.stem.endswith(mon)), None)
  try:
      if monthly_file:
          df = read_bundle_csv(monthly_file)
          info = write_month_partition(df, base, tf, mon, monthly_file, ...)
      else:
          dfs = []
          for f in sorted(fps):
              try: dfs.append(read_bundle_csv(f))
              except Exception as e: print(...)
          if not dfs: continue
          big = pd.concat(dfs)
          big = big[~big.index.duplicated(keep='last')]
          info = write_month_partition(big, base, tf, mon, fps[0], ...)
      month_infos[mon] = info
  except Exception as e: print(...)
  \<close>
  The result is the store and the month's info, \<open>None\<close> when the month is skipped.
\<close>

definition import_month ::
  "string \<Rightarrow> string \<Rightarrow> bool \<Rightarrow> bool \<Rightarrow> string \<Rightarrow> bundle_file list \<Rightarrow> import_store
     \<Rightarrow> import_store \<times> month_info option" where
  "import_month base tf dry_run force mon fps st =
     (case find (\<lambda>f. ends_with (fst f) mon) fps of
        Some monthly_file \<Rightarrow>
          (case snd monthly_file of
             None \<Rightarrow> (st, None)
           | Some rows \<Rightarrow>
               map_prod id Some
                 (write_month_partition (read_bundle_csv rows) base tf mon dry_run force st))
      | None \<Rightarrow>
          (let dfs = List.map_filter (\<lambda>f. map_option read_bundle_csv (snd f)) fps in
           if dfs = [] then (st, None)
           else
             map_prod id Some
               (write_month_partition (keep_last (concat dfs)) base tf mon dry_run force st)))"

text \<open>
  \<^verbatim>\<open>for mon, fps in sorted(months.items())\<close>, with \<^verbatim>\<open>month_infos\<close> a dictionary in
  insertion order.
\<close>

fun import_months ::
  "string \<Rightarrow> string \<Rightarrow> bool \<Rightarrow> bool \<Rightarrow> (string \<times> bundle_file list) list
     \<Rightarrow> import_store \<times> (string \<times> month_info) list
     \<Rightarrow> import_store \<times> (string \<times> month_info) list" where
  "import_months base tf dry_run force [] acc = acc"
| "import_months base tf dry_run force ((mon, fps) # rest) (st, month_infos) =
     (case import_month base tf dry_run force mon fps st of
        (st', None) \<Rightarrow> import_months base tf dry_run force rest (st', month_infos)
      | (st', Some info) \<Rightarrow>
          import_months base tf dry_run force rest (st', AList.update mon info month_infos))"

text \<open>
  The yearly manifests:
  \<^verbatim>\<open>
  years = {}
  for mon, info in month_infos.items():
      y = mon.split('-')[0]
      years.setdefault(y, {})[mon] = info
  for y, months_map in years.items():
      ydata = {'year': y, 'months': {}, ...}
      total_rows = 0
      for mon, info in months_map.items():
          ydata['months'][mon] = {'rows': info.get('rows'), ...}
          total_rows += info.get('rows', 0) or 0
      ydata['rows'] = total_rows
  \<close>
\<close>

fun group_years ::
  "(string \<times> month_info) list \<Rightarrow> (string \<times> (string \<times> month_info) list) list
     \<Rightarrow> (string \<times> (string \<times> month_info) list) list" where
  "group_years [] years = years"
| "group_years ((mon, info) # rest) years =
     group_years rest
       (AList.update (year_of mon)
          (AList.update mon info
             (case map_of years (year_of mon) of None \<Rightarrow> [] | Some months_map \<Rightarrow> months_map))
          years)"

definition year_data :: "string \<Rightarrow> (string \<times> month_info) list \<Rightarrow> year_manifest" where
  "year_data y months_map =
     \<lparr>y_year = y,
      y_months = fold (\<lambda>(mon, info) months. AList.update mon info months) months_map [],
      y_rows = fold (\<lambda>(mon, info) total_rows. total_rows + info_rows info) months_map 0\<rparr>"

definition year_manifest_yaml :: "string \<Rightarrow> string \<Rightarrow> string \<Rightarrow> string" where
  "year_manifest_yaml base tf y = base @ ''/'' @ tf @ ''/manifest_year_'' @ y @ ''.yaml''"

definition write_year_manifests ::
  "string \<Rightarrow> string \<Rightarrow> bool \<Rightarrow> (string \<times> month_info) list \<Rightarrow> import_store \<Rightarrow> import_store" where
  "write_year_manifests base tf dry_run month_infos st =
     (if month_infos \<noteq> [] \<and> \<not> dry_run then
        fold (\<lambda>(y, months_map) st.
                st\<lparr>year_manifests :=
                     (year_manifests st)(year_manifest_yaml base tf y \<mapsto> year_data y months_map)\<rparr>)
          (group_years month_infos []) st
      else st)"

text \<open>
  \<^verbatim>\<open>main\<close> for one symbol, from the files grouped by month: the months in ascending
  order, then the yearly manifests.
\<close>

definition import_symbol ::
  "string \<Rightarrow> string \<Rightarrow> bool \<Rightarrow> bool \<Rightarrow> (string \<times> bundle_file list) list \<Rightarrow> import_store
     \<Rightarrow> import_store \<times> (string \<times> month_info) list" where
  "import_symbol base tf dry_run force months st =
     (let r = import_months base tf dry_run force (sort_key fst months) (st, [])
      in (write_year_manifests base tf dry_run (snd r) (fst r), snd r))"

section \<open>Example data\<close>

text \<open>
  Small concrete inputs on which the theorems below are instantiated: a candle and a
  fetched row whose prices all equal \<open>x\<close>, a store without files, and an exchange that
  answers the first request with two candles at timestamps 5 and 15 and every later
  request with nothing.
\<close>

definition flat_candle :: "real \<Rightarrow> candle" where
  "flat_candle x = \<lparr>c_open = x, c_high = x, c_low = x, c_close = x, c_volume = 1\<rparr>"

definition flat_bar :: "real \<Rightarrow> fetched" where
  "flat_bar x =
     \<lparr>c_open = x, c_high = x, c_low = x, c_close = x, c_volume = 1, c_symbol = ''BTC/USDT''\<rparr>"

definition empty_store :: store where
  "empty_store = \<lparr>files = Map.empty, manifests = Map.empty, requests = 0\<rparr>"

definition empty_import_store :: import_store where
  "empty_import_store =
     \<lparr>partitions = Map.empty, month_manifests = Map.empty, year_manifests = Map.empty\<rparr>"

text \<open>
  \<open>n\<close> one-minute candles from an instant on, and the rows of a bundle file that holds a
  frame with its open times in microseconds.
\<close>

definition minute_rows :: "instant \<Rightarrow> nat \<Rightarrow> candle frame" where
  "minute_rows start n = map (\<lambda>i. (start + int i * 60000000, flat_candle 1)) [0..<n]"

definition as_bundle :: "candle frame \<Rightarrow> (int option \<times> candle) list" where
  "as_bundle df = map (\<lambda>(t, c). (Some t, c)) df"

text \<open>
  The files of the two-month scenario: a January bundle of 1000 one-minute rows that
  ends ten minutes into February, and a February bundle of 900 rows from the first
  minute of February on, so that the two share ten timestamps with equal values.
\<close>

definition january_rows :: "candle frame" where
  "january_rows = minute_rows 1706686200000000 1000"

definition february_rows :: "candle frame" where
  "february_rows = minute_rows 1706745600000000 900"

definition scenario_months :: "(string \<times> bundle_file list) list" where
  "scenario_months =
     [(''2024-02'', [(''BTCUSDT-1m-2024-02'', Some (as_bundle february_rows))]),
      (''2024-01'', [(''BTCUSDT-1m-2024-01'', Some (as_bundle january_rows))])]"

text \<open>
  Two time zones without daylight saving: UTC, and Tokyo, nine hours ahead of UTC.
\<close>

definition utc_offset :: "instant \<Rightarrow> int" where
  "utc_offset dt = 0"

definition tokyo_offset :: "instant \<Rightarrow> int" where
  "tokyo_offset dt = 32400000"

definition two_candle_exchange :: exchange where
  "two_candle_exchange n symbol timeframe since limit =
     (if n = 0 then Inr [(5, flat_candle 1), (15, flat_candle 2)] else Inr [])"

section \<open>Properties of the merge\<close>

lemma keys_keep_last: "set (map fst (keep_last df)) = set (map fst df)"
  by (induction df) auto

lemma distinct_keep_last: "distinct (map fst (keep_last df))"
  by (induction df) (auto simp: keys_keep_last [simplified])

lemma set_keep_last: "set (keep_last df) \<subseteq> set df"
  by (induction df) auto

lemma distinct_keys_sort_index:
  "distinct (map fst (sort_index df)) = distinct (map fst df)"
  by (simp add: sort_index_def distinct_map)

lemma strict_sort_index:
  "distinct (map fst df) \<Longrightarrow> sorted_wrt (<) (map fst (sort_index df))"
  using distinct_keys_sort_index [of df]
  by (simp add: strict_sorted_iff sort_index_def)

lemma sort_index_sorted: "sorted_wrt (<) (map fst df) \<Longrightarrow> sort_index df = df"
  by (simp add: sort_index_def sort_key_id_if_sorted strict_sorted_iff)

lemma length_sort_index: "length (sort_index df) = length df"
  by (simp add: sort_index_def)

lemma set_sort_index: "set (sort_index df) = set df"
  by (simp add: sort_index_def)

text \<open>
  The rows a deduplicated frame holds at an index value: the last of the rows the input
  holds there.
\<close>

lemma filter_keep_last:
  "filter (\<lambda>r. fst r = t) (keep_last df) =
     (if t \<in> set (map fst df) then [last (filter (\<lambda>r. fst r = t) df)] else [])"
proof (induction df)
  case Nil
  then show ?case by simp
next
  case (Cons r rs)
  show ?case
  proof (cases "fst r \<in> set (map fst rs)")
    case True
    then show ?thesis using Cons by (auto simp: filter_empty_conv)
  next
    case False
    then show ?thesis using Cons set_keep_last [of rs] by (auto simp: filter_empty_conv)
  qed
qed

lemma filter_sort_index:
  "filter (\<lambda>r. fst r = t) (sort_index df) = filter (\<lambda>r. fst r = t) df"
  by (simp add: sort_index_def filter_sort [symmetric] sort_key_stable)

lemma filter_key_distinct:
  "distinct (map fst df) \<Longrightarrow> (t, v) \<in> set df \<Longrightarrow> filter (\<lambda>r. fst r = t) df = [(t, v)]"
proof (induction df)
  case Nil
  then show ?case by simp
next
  case (Cons r rs)
  then show ?case by (cases r) (force simp: filter_empty_conv)
qed

lemma keep_last_distinct: "distinct (map fst df) \<Longrightarrow> keep_last df = df"
  by (induction df) auto

lemma keep_last_shadowed:
  "set (map fst xs) \<subseteq> set (map fst df) \<Longrightarrow> keep_last (xs @ df) = keep_last df"
  by (induction xs) auto

lemma month_combined_eq: "month_combined existing df = merge_dedup existing df"
  by (simp add: month_combined_def merge_dedup_def pd_concat_def)

lemma filter_merge_dedup:
  "filter (\<lambda>r. fst r = t) (merge_dedup old new) =
     (if t \<in> set (map fst new) then [last (filter (\<lambda>r. fst r = t) new)]
      else if t \<in> set (map fst old) then [last (filter (\<lambda>r. fst r = t) old)]
      else [])"
proof -
  let ?at = "filter (\<lambda>r. fst r = t)"
  have new_empty: "?at new = [] \<longleftrightarrow> t \<notin> set (map fst new)"
    by (auto simp: filter_empty_conv)
  have old_empty: "?at old = [] \<longleftrightarrow> t \<notin> set (map fst old)"
    by (auto simp: filter_empty_conv)
  have "?at (merge_dedup old new) =
          (if t \<in> set (map fst (old @ new)) then [last (?at old @ ?at new)] else [])"
    by (simp add: merge_dedup_def pd_concat_def filter_sort_index filter_keep_last)
  then show ?thesis
    using new_empty old_empty by (auto simp: last_append)
qed

lemma merge_self_distinct:
  "distinct (map fst S) \<Longrightarrow> merge_dedup S S = sort_index S"
  by (simp add: merge_dedup_def pd_concat_def keep_last_shadowed keep_last_distinct)

lemma merge_dedup_fixed:
  "merge_dedup (merge_dedup old new) (merge_dedup old new) = merge_dedup old new"
proof -
  have d: "distinct (map fst (merge_dedup old new))"
    by (simp add: merge_dedup_def distinct_keys_sort_index distinct_keep_last)
  have "sorted_wrt (<) (map fst (merge_dedup old new))"
    by (simp add: merge_dedup_def strict_sort_index distinct_keep_last)
  then have "sort_index (merge_dedup old new) = merge_dedup old new"
    by (rule sort_index_sorted)
  with d show ?thesis by (simp add: merge_self_distinct)
qed

text \<open>
  C7. Whatever the old and the new frame hold, in whatever order and with whatever
  repetitions, the index of a merged frame is strictly increasing: no timestamp occurs
  twice and none comes before an earlier one. This holds for the merge of
  \<^verbatim>\<open>update_symbols_to_now\<close> and for the merge of \<^verbatim>\<open>write_month_partition\<close>.
\<close>

theorem merge_strictly_increasing:
  "sorted_wrt (<) (map fst (merge_dedup existing combined_df)) \<and>
   sorted_wrt (<) (map fst (month_combined existing df))"
  by (simp add: month_combined_eq merge_dedup_def strict_sort_index distinct_keep_last)

theorem merge_strictly_increasing_witness:
  "merge_dedup [(3, ''a''), (1, ''b''), (3, ''c'')] [(2, ''d''), (1, ''e'')]
     = [(1, ''e''), (2, ''d''), (3, ''c'')] \<and>
   sorted_wrt (<) (map fst (merge_dedup [(3, ''a''), (1, ''b''), (3, ''c'')] [(2, ''d''), (1, ''e'')]))"
  using merge_strictly_increasing [of "[(3, ''a''), (1, ''b''), (3, ''c'')]" "[(2, ''d''), (1, ''e'')]"]
  by (simp add: merge_dedup_def pd_concat_def sort_index_def)

text \<open>
  C2. Last write wins: when the new frame holds a row at timestamp \<open>t\<close>, the merged
  frame holds exactly one row at \<open>t\<close>, the last row the new frame holds there, whatever
  the old frame holds at \<open>t\<close>: a different value, the same value, or nothing. When the
  new frame is a Series, with one row per timestamp, that row is the new frame's row at
  \<open>t\<close>. Both merges behave so.
\<close>

theorem merge_last_write_wins:
  assumes "(t, v_new) \<in> set new"
  shows "filter (\<lambda>r. fst r = t) (merge_dedup old new) = [last (filter (\<lambda>r. fst r = t) new)] \<and>
         filter (\<lambda>r. fst r = t) (month_combined old new) = [last (filter (\<lambda>r. fst r = t) new)] \<and>
         (distinct (map fst new) \<longrightarrow>
            filter (\<lambda>r. fst r = t) (merge_dedup old new) = [(t, v_new)] \<and>
            filter (\<lambda>r. fst r = t) (month_combined old new) = [(t, v_new)])"
proof -
  from assms have "t \<in> set (map fst new)" by force
  then have "filter (\<lambda>r. fst r = t) (merge_dedup old new) = [last (filter (\<lambda>r. fst r = t) new)]"
    by (simp add: filter_merge_dedup)
  moreover have "filter (\<lambda>r. fst r = t) new = [(t, v_new)]" if "distinct (map fst new)"
    using that assms by (rule filter_key_distinct)
  ultimately show ?thesis
    by (simp add: month_combined_eq)
qed

theorem merge_last_write_wins_witness:
  "filter (\<lambda>r. fst r = 2) (merge_dedup [(1, ''a''), (2, ''old'')] [(2, ''new''), (3, ''c'')])
     = [(2, ''new'')] \<and>
   merge_dedup [(1, ''a''), (2, ''old'')] [(2, ''new''), (3, ''c'')]
     = [(1, ''a''), (2, ''new''), (3, ''c'')]"
proof -
  have d: "distinct (map fst [(2::int, ''new''), (3, ''c'')])" by simp
  have m: "(2::int, ''new'') \<in> set [(2, ''new''), (3, ''c'')]" by simp
  show ?thesis
    using merge_last_write_wins [OF m, of "[(1, ''a''), (2, ''old'')]"] d
    by (simp add: merge_dedup_def pd_concat_def sort_index_def)
qed

text \<open>
  C8. Merging a Series with itself gives the Series back. A frame whose timestamps are
  strictly increasing is returned row for row, by both merges. A frame with one row per
  timestamp is returned with the same length and the same rows, in time order. And every
  frame a merge has produced is returned unchanged when merged with itself.
\<close>

theorem merge_self_identity:
  "(sorted_wrt (<) (map fst S) \<longrightarrow> merge_dedup S S = S \<and> month_combined S S = S) \<and>
   (distinct (map fst S) \<longrightarrow>
      length (merge_dedup S S) = length S \<and> set (merge_dedup S S) = set S) \<and>
   merge_dedup (merge_dedup old new) (merge_dedup old new) = merge_dedup old new"
proof -
  have "merge_dedup S S = S \<and> month_combined S S = S" if "sorted_wrt (<) (map fst S)"
  proof -
    from that have "distinct (map fst S)" and "sorted (map fst S)"
      by (simp_all add: strict_sorted_iff)
    then show ?thesis
      by (simp add: month_combined_eq merge_self_distinct sort_index_def sort_key_id_if_sorted)
  qed
  moreover have "length (merge_dedup S S) = length S \<and> set (merge_dedup S S) = set S"
    if "distinct (map fst S)"
    using that by (simp add: merge_self_distinct length_sort_index set_sort_index)
  ultimately show ?thesis
    by (simp add: merge_dedup_fixed)
qed

theorem merge_self_identity_witness:
  "merge_dedup [(1, ''a''), (2, ''b''), (5, ''c'')] [(1, ''a''), (2, ''b''), (5, ''c'')]
     = [(1, ''a''), (2, ''b''), (5, ''c'')] \<and>
   merge_dedup [(2, ''b''), (1, ''a'')] [(2, ''b''), (1, ''a'')] = [(1, ''a''), (2, ''b'')] \<and>
   length (merge_dedup [(2, ''b''), (1, ''a'')] [(2, ''b''), (1, ''a'')])
     = length [(2::int, ''b''), (1, ''a'')]"
proof -
  have s: "sorted_wrt (<) (map fst [(1::int, ''a''), (2, ''b''), (5, ''c'')])" by simp
  have d: "distinct (map fst [(2::int, ''b''), (1, ''a'')])" by simp
  have "merge_dedup [(1, ''a''), (2, ''b''), (5, ''c'')] [(1, ''a''), (2, ''b''), (5, ''c'')]
     = [(1, ''a''), (2, ''b''), (5, ''c'')]"
    using merge_self_identity [of "[(1::int, ''a''), (2, ''b''), (5, ''c'')]" "[]" "[]"] s
    by blast
  moreover have "length (merge_dedup [(2, ''b''), (1, ''a'')] [(2, ''b''), (1, ''a'')])
     = length [(2::int, ''b''), (1, ''a'')]"
    using merge_self_identity [of "[(2::int, ''b''), (1, ''a'')]" "[]" "[]"] d
    by blast
  moreover have "merge_dedup [(2, ''b''), (1, ''a'')] [(2, ''b''), (1, ''a'')] = [(1, ''a''), (2, ''b'')]"
    by (simp add: merge_dedup_def pd_concat_def sort_index_def)
  ultimately show ?thesis by blast
qed

section \<open>Properties of the resume planner\<close>

lemma isdigit_no_letter:
  assumes "isdigit ds" and "c \<notin> set ''0123456789''"
  shows "remove_char c (ds @ [c]) = ds"
proof -
  from assms have "\<forall>x \<in> set ds. x \<noteq> c" by (auto simp: isdigit_def list_all_iff)
  then have "filter (\<lambda>x. x \<noteq> c) ds = ds" by (simp add: filter_id_conv)
  then show ?thesis by (simp add: remove_char_def)
qed

lemma interval_hours:
  assumes "spec_bar_duration tf = Some d" and "last tf = CHR ''h''"
  shows "timeframe_interval tf = d"
proof -
  from assms(1) have ne: "tf \<noteq> []" and dig: "isdigit (butlast tf)"
    by (auto simp: spec_bar_duration_def split: if_splits)
  from ne assms(2) have tf: "tf = butlast tf @ [CHR ''h'']"
    by (metis append_butlast_last_id)
  have rm: "remove_char CHR ''h'' tf = butlast tf"
    using isdigit_no_letter [OF dig, of "CHR ''h''"] tf by simp
  from assms ne dig have "d = py_int (butlast tf) * 3600000"
    by (simp add: spec_bar_duration_def)
  with ne assms(2) dig rm show ?thesis
    by (simp add: timeframe_interval_def endswith_def hours_def)
qed

lemma interval_days:
  assumes "spec_bar_duration tf = Some d" and "last tf = CHR ''d''"
  shows "timeframe_interval tf = d"
proof -
  from assms(1) have ne: "tf \<noteq> []" and dig: "isdigit (butlast tf)"
    by (auto simp: spec_bar_duration_def split: if_splits)
  from ne assms(2) have tf: "tf = butlast tf @ [CHR ''d'']"
    by (metis append_butlast_last_id)
  have rm: "remove_char CHR ''d'' tf = butlast tf"
    using isdigit_no_letter [OF dig, of "CHR ''d''"] tf by simp
  from assms ne dig have "d = py_int (butlast tf) * 86400000"
    by (simp add: spec_bar_duration_def)
  with ne assms(2) dig rm show ?thesis
    by (simp add: timeframe_interval_def endswith_def days_def)
qed

lemma interval_fallback:
  "\<not> endswith tf CHR ''h'' \<Longrightarrow> \<not> endswith tf CHR ''d'' \<Longrightarrow> timeframe_interval tf = 3600000"
  by (simp add: timeframe_interval_def hours_def)

lemma since_ms_no_file:
  "since_ms local_offset timeframe (Some d) overlap now_utc (None :: 'v frame option)
     = Inr (now_utc - d * 86400000 - local_offset (now_utc - d * 86400000))"
  by (simp add: since_ms_def naive_timestamp_def days_def)

text \<open>
  C4, as stated, fails in two places. On a minute timeframe: for \<^verbatim>\<open>5m\<close> the bar
  duration is five minutes, yet with overlap 2 the planner goes back two hours from the
  last stored timestamp, not ten minutes. And without a stored Series on a machine whose
  time zone is not UTC: in Tokyo, with a lookback of 365 days, the planner returns an
  instant nine hours before now minus 365 days.
\<close>

theorem resume_since_counterexample:
  "spec_bar_duration ''5m'' = Some 300000 \<and>
   since_ms utc_offset ''5m'' (Some 365) 2 1700000600000 (Some [(1700000000000, ())])
     = Inr (1700000000000 - 2 * 3600000) \<and>
   since_ms utc_offset ''5m'' (Some 365) 2 1700000600000 (Some [(1700000000000, ())])
     \<noteq> Inr (1700000000000 - 2 * 300000) \<and>
   since_ms tokyo_offset ''1h'' (Some 365) 2 1700000600000 (None :: unit frame option)
     = Inr (1700000600000 - 365 * 86400000 - 32400000) \<and>
   since_ms tokyo_offset ''1h'' (Some 365) 2 1700000600000 (None :: unit frame option)
     \<noteq> Inr (1700000600000 - 365 * 86400000)"
  by (simp add: spec_bar_duration_def isdigit_def py_int_def since_ms_def
        timeframe_interval_def endswith_def hours_def days_def naive_timestamp_def
        tokyo_offset_def)

text \<open>
  C4, amended. For an existing Series with rows, last stored timestamp \<open>T\<close> and any
  overlap \<open>k\<close>: for a timeframe written as a number followed by \<^verbatim>\<open>h\<close> or by \<^verbatim>\<open>d\<close>, with
  bar duration \<open>\<Delta>\<close>, the planner returns \<open>T - k * \<Delta>\<close>; for a timeframe that ends in neither
  \<^verbatim>\<open>h\<close> nor \<^verbatim>\<open>d\<close> it takes one hour for \<open>\<Delta>\<close> and returns \<open>T - k\<close> hours. When no Series
  exists, \<^verbatim>\<open>days_back\<close> is a number \<open>d\<close> and the UTC offset of the machine's time zone is
  0 at the wall-clock value now minus \<open>d\<close> days, it returns now minus \<open>d\<close> days.
\<close>

theorem resume_since:
  assumes "existing \<noteq> []"
  shows "(spec_bar_duration timeframe = Some \<Delta> \<and>
            (last timeframe = CHR ''h'' \<or> last timeframe = CHR ''d'') \<longrightarrow>
          since_ms local_offset timeframe days_back overlap now_utc (Some existing)
            = Inr (fst (last existing) - overlap * \<Delta>)) \<and>
         (\<not> endswith timeframe CHR ''h'' \<and> \<not> endswith timeframe CHR ''d'' \<longrightarrow>
          since_ms local_offset timeframe days_back overlap now_utc (Some existing)
            = Inr (fst (last existing) - overlap * 3600000)) \<and>
         (local_offset (now_utc - d * 86400000) = 0 \<longrightarrow>
          since_ms local_offset timeframe (Some d) overlap now_utc (None :: 'v frame option)
            = Inr (now_utc - d * 86400000))"
  using assms interval_hours [of timeframe \<Delta>] interval_days [of timeframe \<Delta>]
    interval_fallback [of timeframe]
  by (auto simp: since_ms_def days_def naive_timestamp_def)

theorem resume_since_witness:
  "since_ms utc_offset ''4h'' None 2 1700000600000
     (Some [(1699990000000, ()), (1700000000000, ())])
     = Inr (1700000000000 - 2 * 14400000) \<and>
   since_ms utc_offset ''1d'' None 1 1700000600000 (Some [(1700000000000, ())])
     = Inr (1700000000000 - 86400000) \<and>
   since_ms utc_offset ''5m'' None 2 1700000600000 (Some [(1700000000000, ())])
     = Inr (1700000000000 - 2 * 3600000) \<and>
   since_ms utc_offset ''1h'' (Some 365) 2 1700000600000 (None :: unit frame option)
     = Inr (1700000600000 - 365 * 86400000)"
proof -
  have a: "[(1699990000000::int, ()), (1700000000000, ())] \<noteq> []" by simp
  have b: "[(1700000000000::int, ())] \<noteq> []" by simp
  have h4: "spec_bar_duration ''4h'' = Some 14400000 \<and> last ''4h'' = CHR ''h''"
    by (simp add: spec_bar_duration_def isdigit_def py_int_def)
  have d1: "spec_bar_duration ''1d'' = Some 86400000 \<and> last ''1d'' = CHR ''d''"
    by (simp add: spec_bar_duration_def isdigit_def py_int_def)
  have m5: "\<not> endswith ''5m'' CHR ''h'' \<and> \<not> endswith ''5m'' CHR ''d''"
    by (simp add: endswith_def)
  have utc: "utc_offset (1700000600000 - 365 * 86400000) = 0"
    by (simp add: utc_offset_def)
  show ?thesis
    using resume_since [OF a, where timeframe = "''4h''" and \<Delta> = 14400000 and overlap = 2
          and days_back = None and now_utc = 1700000600000 and d = 0 and ?'v = unit
          and local_offset = utc_offset]
      resume_since [OF b, where timeframe = "''1d''" and \<Delta> = 86400000 and overlap = 1
          and days_back = None and now_utc = 1700000600000 and d = 0 and ?'v = unit
          and local_offset = utc_offset]
      resume_since [OF b, where timeframe = "''5m''" and \<Delta> = 0 and overlap = 2
          and days_back = None and now_utc = 1700000600000 and d = 0 and ?'v = unit
          and local_offset = utc_offset]
      resume_since [OF b, where timeframe = "''1h''" and \<Delta> = 0 and overlap = 2 and d = 365
          and days_back = None and now_utc = 1700000600000 and ?'v = unit
          and local_offset = utc_offset]
      h4 d1 m5 utc
    by simp
qed

section \<open>Properties of the chunked range fetch\<close>

text \<open>
  Whenever the loop of the source stops, it has gone through the steps of the
  specification, and whenever the steps of the specification lead to a result, the loop
  stops with it.
\<close>

lemma chunk_loop_sound:
  "chunk_loop ex symbol tf e n c pages = Some y \<Longrightarrow>
   spec_chunked_fetch (\<lambda>k cur. fetch_ohlcv_safe ex k symbol tf (Some cur) 1000) 1000 e n c pages (fst y)"
proof (induction ex symbol tf e n c pages y rule: chunk_loop.raw_induct [rotated 1, consumes 1])
  case (1 loop ex symbol tf e n c pages y)
  let ?page = "\<lambda>k cur. fetch_ohlcv_safe ex k symbol tf (Some cur) 1000"
  let ?p = "?page n c"
  show ?case
  proof (cases "?p = []")
    case True
    with 1(2) have "fst y = pages" by auto
    with True show ?thesis by (simp add: spec_chunked_fetch.empty_page_stops)
  next
    case ne: False
    show ?thesis
    proof (cases "e \<le> fst (last ?p)")
      case True
      with ne 1(2) have "fst y = pages @ [filter (\<lambda>r. fst r \<le> e) ?p]"
        by (auto simp: Let_def)
      with ne True show ?thesis
        using spec_chunked_fetch.reached_end_trims_and_stops [of ?page n c ?p e 1000 pages] by simp
    next
      case lt: False
      show ?thesis
      proof (cases "length ?p < 1000")
        case True
        with ne lt 1(2) have "fst y = pages @ [?p]" by (auto simp: Let_def)
        with ne lt True show ?thesis
          using spec_chunked_fetch.short_page_stops [of ?page n c ?p e 1000 pages] by simp
      next
        case False
        with ne lt 1(2) have "loop ex symbol tf e (Suc n) (fst (last ?p) + 1) (pages @ [?p]) = Some y"
          by (auto simp: Let_def)
        from 1(1) [OF this] ne lt False show ?thesis
          using spec_chunked_fetch.full_page_advances [of ?page n c ?p e 1000 pages "fst y"] by simp
      qed
    qed
  qed
qed

lemma chunk_loop_complete:
  assumes "spec_chunked_fetch (\<lambda>k cur. fetch_ohlcv_safe ex k symbol tf (Some cur) 1000) 1000 e n c pages r"
  shows "\<exists>m. chunk_loop ex symbol tf e n c pages = Some (r, m)"
  using assms
proof (induction rule: spec_chunked_fetch.induct)
  case (empty_page_stops n cursor pages)
  then show ?case by (subst chunk_loop.simps) simp
next
  case (reached_end_trims_and_stops n cursor p pages)
  then show ?case by (subst chunk_loop.simps) (auto simp: Let_def)
next
  case (short_page_stops n cursor p pages)
  then show ?case by (subst chunk_loop.simps) (auto simp: Let_def)
next
  case (full_page_advances n cursor p pages result)
  then show ?case by (subst chunk_loop.simps) (auto simp: Let_def)
qed

lemma fetch_two:
  "fetch_ohlcv_safe two_candle_exchange 0 ''BTC/USDT'' ''1h'' (Some 0) 1000
     = [(5, flat_bar 1), (15, flat_bar 2)]"
  by (simp add: fetch_ohlcv_safe_def two_candle_exchange_def flat_candle_def flat_bar_def)

text \<open>
  C3. The Chunked Range Fetcher follows the steps of the specification: started with the
  cursor at \<open>start\<close> and no pages, the loop of the source stops with a list of chunks
  exactly when the specified steps (an empty page stops; a page is appended; a page whose
  last timestamp has reached the end is trimmed to the rows up to the end and stops; a
  page shorter than the page size of 1000 stops; otherwise the cursor moves to the last
  timestamp plus 1 ms) lead to that list. A run that never stops has no result on either
  side.
\<close>

theorem chunk_loop_follows_spec:
  "(\<exists>n'. fetch_range ex symbol timeframe start end_time n = Some (result, n')) \<longleftrightarrow>
   spec_chunked_fetch (\<lambda>k cursor. fetch_ohlcv_safe ex k symbol timeframe (Some cursor) 1000)
     1000 end_time n start [] result"
  using chunk_loop_sound [of ex symbol timeframe end_time n start "[]"]
    chunk_loop_complete [of ex symbol timeframe end_time n start "[]" result]
  by (auto simp: fetch_range_def)

theorem chunk_loop_follows_spec_witness:
  "fetch_range two_candle_exchange ''BTC/USDT'' ''1h'' 0 10 0 = Some ([[(5, flat_bar 1)]], 1) \<and>
   spec_chunked_fetch
     (\<lambda>k cursor. fetch_ohlcv_safe two_candle_exchange k ''BTC/USDT'' ''1h'' (Some cursor) 1000)
     1000 10 0 0 [] [[(5, flat_bar 1)]]"
proof -
  have run: "fetch_range two_candle_exchange ''BTC/USDT'' ''1h'' 0 10 0 = Some ([[(5, flat_bar 1)]], 1)"
    unfolding fetch_range_def
    by (subst chunk_loop.simps) (simp add: fetch_two)
  then show ?thesis
    using chunk_loop_follows_spec [of two_candle_exchange "''BTC/USDT''" "''1h''" 0 10 0 "[[(5, flat_bar 1)]]"]
    by simp
qed

section \<open>Properties of the update\<close>

lemma update_symbol_missing:
  "files (fst sr) (canonical_csv symbol tf) = None \<Longrightarrow>
   update_symbol ex local_offset tf None k incl now symbol sr = Some (Inl TypeError)"
  by (simp add: update_symbol_def since_ms_def)

lemma files_store_chunks:
  "p \<noteq> canonical_csv symbol tf \<Longrightarrow>
   files (fst (store_chunks symbol tf all_chunks sr)) p = files (fst sr) p"
  by (simp add: store_chunks_def Let_def split: option.splits)

lemma files_write_symbol_manifest:
  "files (fst (write_symbol_manifest symbol tf sr)) p = files (fst sr) p"
  by (simp add: write_symbol_manifest_def Let_def split: option.splits)

lemma update_symbol_keeps_missing:
  assumes "update_symbol ex local_offset tf None k incl now symbol sr = Some (Inr sr')"
    and "files (fst sr) p = None"
  shows "files (fst sr') p = None"
proof -
  from assms(1) have "files (fst sr) (canonical_csv symbol tf) \<noteq> None"
    using update_symbol_missing [of sr symbol tf ex local_offset k incl now] by auto
  with assms(2) have ne: "p \<noteq> canonical_csv symbol tf" by auto
  from assms(1) obtain all_chunks n where
    "sr' = write_symbol_manifest symbol tf
             (store_chunks symbol tf all_chunks ((fst sr)\<lparr>requests := n\<rparr>, snd sr))"
    by (auto simp: update_symbol_def split: sum.splits option.splits)
  then show ?thesis
    using assms(2) ne by (simp add: files_write_symbol_manifest files_store_chunks)
qed

lemma update_loop_missing:
  "symbol \<in> set symbols \<Longrightarrow> files (fst sr) (canonical_csv symbol tf) = None \<Longrightarrow>
   update_loop ex local_offset tf None k incl now symbols sr \<noteq> Some (Inr r)"
proof (induction symbols arbitrary: sr)
  case Nil
  then show ?case by simp
next
  case (Cons s symbols)
  show ?case
  proof (cases "update_symbol ex local_offset tf None k incl now s sr")
    case None
    then show ?thesis by simp
  next
    case (Some res)
    show ?thesis
    proof (cases res)
      case (Inl e)
      with Some show ?thesis by simp
    next
      case (Inr sr')
      with Some have step: "update_symbol ex local_offset tf None k incl now s sr = Some (Inr sr')" by simp
      then have "s \<noteq> symbol"
        using update_symbol_missing [of sr symbol tf ex local_offset k incl now] Cons.prems(2) by auto
      with Cons.prems(1) have "symbol \<in> set symbols" by simp
      moreover have "files (fst sr') (canonical_csv symbol tf) = None"
        using update_symbol_keeps_missing [OF step Cons.prems(2)] .
      ultimately show ?thesis using Cons.IH step by simp
    qed
  qed
qed

text \<open>
  C10. When the canonical CSV of a symbol does not exist and \<^verbatim>\<open>days_back\<close> is \<^verbatim>\<open>None\<close>,
  the iteration for that symbol raises TypeError, and nothing catches it: a call of
  \<^verbatim>\<open>update_symbols_to_now\<close> whose first symbol has no CSV ends with TypeError, a call
  with such a symbol anywhere in the list never returns normally, and the
  update-to-latest script, which always passes \<^verbatim>\<open>None\<close>, ends with TypeError on a first
  symbol without a CSV. No lookback window is used.
\<close>

theorem update_without_csv_raises:
  assumes "files st (canonical_csv symbol timeframe) = None"
  shows "update_symbol ex local_offset timeframe None overlap include_now now_utc symbol (st, results)
           = Some (Inl TypeError) \<and>
         update_symbols_to_now ex local_offset now_utc st (symbol # rest) timeframe None overlap include_now
           = Some (Inl TypeError) \<and>
         (symbol \<in> set symbols \<longrightarrow>
            (\<forall>r. update_symbols_to_now ex local_offset now_utc st symbols timeframe None overlap include_now
                   \<noteq> Some (Inr r))) \<and>
         (normalize_symbol arg = symbol \<longrightarrow>
            update_symbol_latest ex local_offset now_utc st (arg # args) timeframe overlap include_now
              = Some (Inl TypeError))"
  using assms
    update_loop_missing [of symbol symbols "(st, Map.empty)" timeframe ex local_offset overlap
      include_now now_utc]
  by (auto simp: update_symbol_missing update_symbols_to_now_def update_symbol_latest_def)

theorem update_without_csv_raises_witness:
  "update_symbol_latest two_candle_exchange utc_offset 1700000000000 empty_store [''btc''] ''1d'' 1 False
     = Some (Inl TypeError) \<and>
   update_symbols_to_now two_candle_exchange utc_offset 1700000000000 empty_store [''BTC/USDT''] ''1d'' None 1 False
     = Some (Inl TypeError)"
proof -
  have missing: "files empty_store (canonical_csv ''BTC/USDT'' ''1d'') = None"
    by (simp add: empty_store_def)
  have norm: "normalize_symbol ''btc'' = ''BTC/USDT''"
    by (simp add: normalize_symbol_def upper_def)
  show ?thesis
    using update_without_csv_raises [OF missing, where ex = two_candle_exchange
        and local_offset = utc_offset
        and overlap = 1 and include_now = False and now_utc = 1700000000000 and rest = "[]"
        and symbols = "[''BTC/USDT'']" and arg = "''btc''" and args = "[]" and results = Map.empty]
      norm
    by simp
qed

section \<open>Properties of saving\<close>

lemma map_of_rev_filter:
  "map_of (rev df) t =
     (if filter (\<lambda>r. fst r = t) df = [] then None
      else Some (snd (last (filter (\<lambda>r. fst r = t) df))))"
  by (induction df rule: rev_induct) auto

lemma save_final_at:
  assumes "existing \<noteq> []" and "t \<le> fst (last existing)"
  shows "\<exists>final. save_final df (Some existing) = Inr final \<and>
           (final = existing \<or>
            filter (\<lambda>r. fst r = t) final =
              (if filter (\<lambda>r. fst r = t) existing = [] then []
               else [last (filter (\<lambda>r. fst r = t) existing)]))"
proof -
  let ?new = "filter (\<lambda>r. fst (last existing) < fst r) df"
  have none: "filter (\<lambda>r. fst r = t) ?new = []"
    using assms(2) by (auto simp: filter_empty_conv)
  then have "t \<notin> set (map fst ?new)" by (auto simp: filter_empty_conv)
  then have "filter (\<lambda>r. fst r = t) (merge_dedup existing ?new) =
      (if filter (\<lambda>r. fst r = t) existing = [] then []
               else [last (filter (\<lambda>r. fst r = t) existing)])"
    by (simp only: filter_merge_dedup) (auto simp: filter_empty_conv)
  then show ?thesis
    using assms(1) by (simp add: save_final_def Let_def merge_dedup_def)
qed

lemma kept_at_refl: "kept_at t existing existing"
  by (simp add: kept_at_def)

lemma save_final_keeps:
  assumes "existing \<noteq> []" and "t \<le> fst (last existing)"
  shows "\<exists>final. save_final df (Some existing) = Inr final \<and> kept_at t existing final"
proof -
  from save_final_at [OF assms] obtain final where
    f: "save_final df (Some existing) = Inr final" and
    at: "final = existing \<or>
            filter (\<lambda>r. fst r = t) final =
              (if filter (\<lambda>r. fst r = t) existing = [] then []
               else [last (filter (\<lambda>r. fst r = t) existing)])"
    by blast
  have m: "map_of (rev final) t = map_of (rev existing) t"
    using at by (auto simp: map_of_rev_filter split: if_splits)
  have d: "filter (\<lambda>r. fst r = t) final = filter (\<lambda>r. fst r = t) existing"
    if dist: "distinct (map fst existing)"
  proof (cases "filter (\<lambda>r. fst r = t) existing = []")
    case True
    with at show ?thesis by auto
  next
    case False
    then obtain v where "(t, v) \<in> set existing"
      by (auto simp: filter_empty_conv)
    from filter_key_distinct [OF dist this] at show ?thesis by auto
  qed
  from f m d show ?thesis by (auto simp: kept_at_def)
qed

lemma save_data_step:
  assumes "d \<noteq> []" and "save_data ((s, d) # items) timeframe (st, a, b) = Inr (st', n, m)"
  shows "\<exists>final_df st1 a1 b1.
           save_final d (files st (save_csv s timeframe)) = Inr final_df \<and>
           files st1 = (files st)(save_csv s timeframe \<mapsto> final_df) \<and>
           save_data items timeframe (st1, a1, b1) = Inr (st', n, m)"
proof (cases "save_final d (files st (save_csv s timeframe))")
  case (Inl e)
  with assms show ?thesis by simp
next
  case (Inr final_df)
  let ?st1 = "st\<lparr>files := (files st)(save_csv s timeframe \<mapsto> final_df),
                  manifests :=
                    (case symbol_manifest s timeframe final_df of
                       None \<Rightarrow> manifests st
                     | Some meta \<Rightarrow> (manifests st)(manifest_yaml s timeframe \<mapsto> meta))\<rparr>"
  from assms Inr have "save_data items timeframe (?st1, a + 1, b + length final_df) = Inr (st', n, m)"
    by simp
  moreover have "files ?st1 = (files st)(save_csv s timeframe \<mapsto> final_df)" by simp
  ultimately show ?thesis using Inr by blast
qed

lemma save_data_other_files:
  assumes "save_data items timeframe (st, a, b) = Inr (st', n, m)"
    and "\<forall>item \<in> set items. save_csv (fst item) timeframe \<noteq> p"
  shows "files st' p = files st p"
  using assms
proof (induction items arbitrary: st a b)
  case Nil
  then show ?case by simp
next
  case (Cons item items)
  obtain s d where item: "item = (s, d)" by (cases item)
  from Cons.prems(2) item have ne: "save_csv s timeframe \<noteq> p"
    and rest: "\<forall>item \<in> set items. save_csv (fst item) timeframe \<noteq> p"
    by simp_all
  show ?case
  proof (cases "d = []")
    case True
    with Cons.prems(1) item have "save_data items timeframe (st, a, b) = Inr (st', n, m)"
      by simp
    from Cons.IH [OF this rest] show ?thesis .
  next
    case False
    from save_data_step [OF False Cons.prems(1) [unfolded item]]
    obtain final_df st1 a1 b1 where
      f1: "files st1 = (files st)(save_csv s timeframe \<mapsto> final_df)" and
      run: "save_data items timeframe (st1, a1, b1) = Inr (st', n, m)"
      by blast
    from Cons.IH [OF run rest] f1 ne show ?thesis by simp
  qed
qed


lemma save_data_keeps_aux:
  assumes "save_data data_dict timeframe (st, a, b) = Inr (st', n, m)"
    and "distinct (map fst data_dict)" and "(symbol, df) \<in> set data_dict"
    and "\<forall>item \<in> set data_dict.
           fst item \<noteq> symbol \<longrightarrow> save_csv (fst item) timeframe \<noteq> save_csv symbol timeframe"
    and "files st (save_csv symbol timeframe) = Some existing"
    and "existing \<noteq> []" and "t \<le> fst (last existing)"
  shows "\<exists>final. files st' (save_csv symbol timeframe) = Some final \<and> kept_at t existing final"
  using assms(1-5)
proof (induction data_dict arbitrary: st a b)
  case Nil
  then show ?case by simp
next
  case (Cons item items)
  let ?p = "save_csv symbol timeframe"
  obtain s d where item: "item = (s, d)" by (cases item)
  from Cons.prems(2) item have s_rest: "s \<notin> fst ` set items" and dist: "distinct (map fst items)"
    by simp_all
  from Cons.prems(4) have others: "\<forall>item \<in> set items.
           fst item \<noteq> symbol \<longrightarrow> save_csv (fst item) timeframe \<noteq> ?p"
    by simp
  show ?case
  proof (cases "s = symbol")
    case True
    have d: "d = df"
    proof (rule ccontr)
      assume "d \<noteq> df"
      with Cons.prems(3) item True have "(symbol, df) \<in> set items" by simp
      then have "symbol \<in> fst ` set items" by force
      with s_rest True show False by simp
    qed
    have rest: "\<forall>item \<in> set items. save_csv (fst item) timeframe \<noteq> ?p"
    proof
      fix i assume i: "i \<in> set items"
      then have "fst i \<in> fst ` set items" by simp
      with s_rest True have "fst i \<noteq> symbol" by auto
      with others i show "save_csv (fst i) timeframe \<noteq> ?p" by simp
    qed
    show ?thesis
    proof (cases "df = []")
      case True
      with Cons.prems(1) item d \<open>s = symbol\<close>
      have "save_data items timeframe (st, a, b) = Inr (st', n, m)" by simp
      from save_data_other_files [OF this rest] Cons.prems(5)
      show ?thesis by (simp add: kept_at_refl)
    next
      case False
      from save_final_keeps [OF assms(6,7), of df] obtain final where
        f: "save_final df (Some existing) = Inr final" and k: "kept_at t existing final"
        by blast
      from Cons.prems(1) item d True have
        "save_data ((symbol, df) # items) timeframe (st, a, b) = Inr (st', n, m)" by simp
      from save_data_step [OF False this] obtain final_df st1 a1 b1 where
        f': "save_final df (files st ?p) = Inr final_df" and
        f1: "files st1 = (files st)(?p \<mapsto> final_df)" and
        run: "save_data items timeframe (st1, a1, b1) = Inr (st', n, m)"
        by blast
      from f f' Cons.prems(5) have "final_df = final" by simp
      with save_data_other_files [OF run rest] f1 k show ?thesis by simp
    qed
  next
    case False
    with Cons.prems(3) item have mem: "(symbol, df) \<in> set items" by simp
    from Cons.prems(4) item False have ne: "save_csv s timeframe \<noteq> ?p" by simp
    show ?thesis
    proof (cases "d = []")
      case True
      with Cons.prems(1) item have "save_data items timeframe (st, a, b) = Inr (st', n, m)"
        by simp
      from Cons.IH [OF this dist mem others Cons.prems(5)] show ?thesis .
    next
      case nonempty: False
      from save_data_step [OF nonempty Cons.prems(1) [unfolded item]]
      obtain final_df st1 a1 b1 where
        f1: "files st1 = (files st)(save_csv s timeframe \<mapsto> final_df)" and
        run: "save_data items timeframe (st1, a1, b1) = Inr (st', n, m)"
        by blast
      from f1 ne Cons.prems(5) have "files st1 ?p = Some existing" by simp
      from Cons.IH [OF run dist mem others this] show ?thesis .
    qed
  qed
qed

text \<open>
  C9. \<^verbatim>\<open>save_data\<close> on a symbol whose file exists, with rows and last stored timestamp
  \<open>L\<close>: when the call returns, for every timestamp \<open>t \<le> L\<close> the file holds the value it
  held before (the value of its last row at \<open>t\<close>, or none), whatever the fetched frame
  holds at \<open>t\<close>; when the stored timestamps are distinct, the rows at \<open>t\<close> are the very
  same rows. Only fetched rows later than \<open>L\<close> enter the file, so a fetched value at a
  stored timestamp, \<open>L\<close> included, is dropped. The symbol may stand anywhere in
  \<^verbatim>\<open>data_dict\<close>, a dictionary, so long as no other symbol is saved to the same file.
\<close>

theorem save_data_keeps_stored_rows:
  assumes "save_data data_dict timeframe (st, a, b) = Inr (st', n, m)"
    and "distinct (map fst data_dict)" and "(symbol, df) \<in> set data_dict"
    and "\<forall>item \<in> set data_dict.
           fst item \<noteq> symbol \<longrightarrow> save_csv (fst item) timeframe \<noteq> save_csv symbol timeframe"
    and "files st (save_csv symbol timeframe) = Some existing"
    and "existing \<noteq> []" and "t \<le> fst (last existing)"
  shows "\<exists>final. files st' (save_csv symbol timeframe) = Some final \<and>
           map_of (rev final) t = map_of (rev existing) t \<and>
           (distinct (map fst existing) \<longrightarrow>
              filter (\<lambda>r. fst r = t) final = filter (\<lambda>r. fst r = t) existing)"
  using save_data_keeps_aux [OF assms] by (simp add: kept_at_def)

theorem save_data_keeps_stored_rows_witness:
  "save_data [(''BTC/USDT'', [(2, flat_bar 99), (3, flat_bar 30)])] ''1h''
     (empty_store\<lparr>files := [save_csv ''BTC/USDT'' ''1h'' \<mapsto> [(1, flat_bar 10), (2, flat_bar 20)]]\<rparr>, 0, 0)
     = Inr (\<lparr>files = [save_csv ''BTC/USDT'' ''1h'' \<mapsto>
                        [(1, flat_bar 10), (2, flat_bar 20), (3, flat_bar 30)]],
             manifests = [manifest_yaml ''BTC/USDT'' ''1h'' \<mapsto>
                        \<lparr>meta_symbol = ''BTC/USDT'', meta_timeframe = ''1h'', meta_rows = 3,
                         meta_start_date = 1, meta_end_date = 3,
                         meta_total_return_pct = Number 200\<rparr>],
             requests = 0\<rparr>, 1, 3) \<and>
   map_of (rev [(1::int, flat_bar 10), (2, flat_bar 20), (3, flat_bar 30)]) 2 = Some (flat_bar 20)"
proof -
  let ?existing = "[(1::int, flat_bar 10), (2, flat_bar 20)]"
  let ?df = "[(2::int, flat_bar 99), (3, flat_bar 30)]"
  let ?st = "empty_store\<lparr>files := [save_csv ''BTC/USDT'' ''1h'' \<mapsto> ?existing]\<rparr>"
  let ?final = "[(1::int, flat_bar 10), (2, flat_bar 20), (3, flat_bar 30)]"
  let ?st' = "\<lparr>files = [save_csv ''BTC/USDT'' ''1h'' \<mapsto> ?final],
             manifests = [manifest_yaml ''BTC/USDT'' ''1h'' \<mapsto>
                        \<lparr>meta_symbol = ''BTC/USDT'', meta_timeframe = ''1h'', meta_rows = 3,
                         meta_start_date = 1, meta_end_date = 3,
                         meta_total_return_pct = Number 200\<rparr>],
             requests = 0\<rparr>"
  have run: "save_data [(''BTC/USDT'', ?df)] ''1h'' (?st, 0, 0) = Inr (?st', 1, 3)"
    by (simp add: save_final_def pd_concat_def sort_index_def empty_store_def
          symbol_manifest_def total_return_pct_def np_true_divide_def flat_bar_def
          numeral_3_eq_3)
  have dist: "distinct (map fst [(''BTC/USDT'', ?df)])" by simp
  have mem: "(''BTC/USDT'', ?df) \<in> set [(''BTC/USDT'', ?df)]" by simp
  have others: "\<forall>item \<in> set [(''BTC/USDT'', ?df)].
           fst item \<noteq> ''BTC/USDT'' \<longrightarrow> save_csv (fst item) ''1h'' \<noteq> save_csv ''BTC/USDT'' ''1h''"
    by simp
  have f: "files ?st (save_csv ''BTC/USDT'' ''1h'') = Some ?existing" by simp
  have e: "?existing \<noteq> []" by simp
  have t: "(2::int) \<le> fst (last ?existing)" by simp
  from save_data_keeps_stored_rows [OF run dist mem others f e t]
  have "map_of (rev ?final) 2 = map_of (rev ?existing) 2" by simp
  then have "map_of (rev ?final) 2 = Some (flat_bar 20)" by simp
  with run show ?thesis by blast
qed

section \<open>Properties of the bundle import\<close>

lemma max_ot_abs:
  assumes "\<forall>x \<in> set open_time. - (2 ^ 63) < x"
  shows "max_ot open_time = (if open_time = [] then 0 else Max (abs ` set open_time))"
proof (cases open_time)
  case Nil
  then show ?thesis by (simp add: max_ot_def)
next
  case (Cons x xs)
  from assms Cons have a: "np_abs x = \<bar>x\<bar>" and b: "map np_abs xs = map abs xs"
    by (auto simp: np_abs_def)
  from Cons have "max_ot open_time = fold max (map np_abs xs) (np_abs x)"
    by (simp add: max_ot_def)
  also have "\<dots> = fold max (map abs xs) \<bar>x\<bar>"
    by (simp only: a b)
  also have "\<dots> = Max (set (\<bar>x\<bar> # map abs xs))"
    by (simp only: Max.set_eq_fold)
  finally show ?thesis using Cons by simp
qed

text \<open>
  C5. The unit of the open-time column is decided by the greatest absolute value in the
  column: above \<open>10^14\<close> microseconds, else above \<open>10^11\<close> milliseconds, else seconds,
  both comparisons strict. So 1700000000000000 is read as microseconds, 1700000000000 as
  milliseconds and 1700000000 as seconds. The open times range over the int64 values
  other than the least one, which numpy's absolute value leaves negative and pandas
  reads as a missing time.
\<close>

theorem open_time_unit_by_magnitude:
  assumes "\<forall>x \<in> set open_time. - (2 ^ 63) < x"
  shows "open_time_unit (max_ot open_time) =
           (if open_time \<noteq> [] \<and> 10 ^ 14 < Max (abs ` set open_time) then Microseconds
            else if open_time \<noteq> [] \<and> 10 ^ 11 < Max (abs ` set open_time) then Milliseconds
            else Seconds) \<and>
         open_time_unit (max_ot [1700000000000000]) = Microseconds \<and>
         open_time_unit (max_ot [1700000000000]) = Milliseconds \<and>
         open_time_unit (max_ot [1700000000]) = Seconds \<and>
         open_time_unit (max_ot [10 ^ 14]) = Milliseconds \<and>
         open_time_unit (max_ot [10 ^ 11]) = Seconds"
proof -
  have "open_time_unit (max_ot open_time) =
           (if open_time \<noteq> [] \<and> 10 ^ 14 < Max (abs ` set open_time) then Microseconds
            else if open_time \<noteq> [] \<and> 10 ^ 11 < Max (abs ` set open_time) then Milliseconds
            else Seconds)"
    by (simp add: max_ot_abs [OF assms] open_time_unit_def)
  moreover have "open_time_unit (max_ot [1700000000000000]) = Microseconds"
    "open_time_unit (max_ot [1700000000000]) = Milliseconds"
    "open_time_unit (max_ot [1700000000]) = Seconds"
    "open_time_unit (max_ot [10 ^ 14]) = Milliseconds"
    "open_time_unit (max_ot [10 ^ 11]) = Seconds"
    by (simp_all add: max_ot_def np_abs_def open_time_unit_def)
  ultimately show ?thesis by simp
qed

theorem open_time_unit_by_magnitude_witness:
  "open_time_unit (max_ot [1600000000000, - 1700000000000, 5]) = Milliseconds \<and>
   read_bundle_csv [(Some 1700000000000000, flat_candle 1)] = [(1700000000000000, flat_candle 1)] \<and>
   read_bundle_csv [(Some 1700000000000, flat_candle 1)] = [(1700000000000000, flat_candle 1)] \<and>
   read_bundle_csv [(Some 1700000000, flat_candle 1)] = [(1700000000000000, flat_candle 1)]"
proof -
  have r: "\<forall>x \<in> set [1600000000000, - 1700000000000, 5::int]. - (2 ^ 63) < x" by simp
  have "open_time_unit (max_ot [1600000000000, - 1700000000000, 5]) = Milliseconds"
    using open_time_unit_by_magnitude [OF r] by simp
  moreover have "read_bundle_csv [(Some 1700000000000000, flat_candle 1)] = [(1700000000000000, flat_candle 1)]"
   "read_bundle_csv [(Some 1700000000000, flat_candle 1)] = [(1700000000000000, flat_candle 1)]"
   "read_bundle_csv [(Some 1700000000, flat_candle 1)] = [(1700000000000000, flat_candle 1)]"
    by (simp_all add: read_bundle_csv_def max_ot_def np_abs_def
          open_time_unit_def to_datetime_def)
  ultimately show ?thesis by simp
qed

section \<open>Properties of the total return\<close>

lemma total_return_pct_formula:
  assumes "2 \<le> length final_df" and "c_close (snd (hd final_df)) \<noteq> 0"
  shows "total_return_pct final_df
           = Number ((c_close (snd (last final_df)) / c_close (snd (hd final_df)) - 1) * 100) \<and>
         month_total_return_pct final_df
           = Number ((c_close (snd (last final_df)) / c_close (snd (hd final_df)) - 1) * 100)"
  using assms by (auto simp: total_return_pct_def month_total_return_pct_def np_true_divide_def Let_def)

lemma total_return_pct_null:
  "length final_df < 2 \<Longrightarrow> total_return_pct final_df = Null"
  "combined \<noteq> [] \<Longrightarrow> c_close (snd (hd combined)) = 0 \<Longrightarrow> month_total_return_pct combined = Null"
  by (simp_all add: total_return_pct_def month_total_return_pct_def)

lemma total_return_pct_example:
  "total_return_pct [(1, flat_bar 100), (2, flat_bar 120), (3, flat_bar 150)] = Number 50"
  "month_total_return_pct [(1, flat_candle 100), (2, flat_candle 120), (3, flat_candle 150)] = Number 50"
  by (simp_all add: total_return_pct_def month_total_return_pct_def np_true_divide_def flat_bar_def flat_candle_def)

text \<open>
  C1. The rule "the formula, or null when the first close is 0 or there are fewer than 2
  rows" is kept by neither writer at both edges. On a Series of one row the importer's
  manifest reports 0.0 where the fetcher's reports null; on a first close of 0 the
  fetcher's manifest reports an infinity where the importer's reports null.
\<close>

theorem total_return_pct_divergence:
  "month_total_return_pct [(1, flat_candle 100)] = Number 0 \<and>
   total_return_pct [(1, flat_bar 100)] = Null \<and>
   total_return_pct [(1, flat_bar 0), (2, flat_bar 150)] = PlusInf \<and>
   month_total_return_pct [(1, flat_candle 0), (2, flat_candle 150)] = Null"
  by (simp add: total_return_pct_def month_total_return_pct_def np_true_divide_def flat_bar_def flat_candle_def)

section \<open>Properties of the yearly roll-up\<close>

lemma update_new: "k \<notin> fst ` set al \<Longrightarrow> AList.update k v al = al @ [(k, v)]"
  by (induction al) auto

lemma set_update_subset: "set (AList.update k v al) \<subseteq> insert (k, v) (set al)"
  by (induction al) auto

lemma fold_rows:
  "fold (\<lambda>(mon, info) total_rows. total_rows + info_rows info) months_map a
     = a + sum_list (map (\<lambda>(mon, info). info_rows info) months_map)"
  by (induction months_map arbitrary: a) auto

lemma fold_update_new:
  "distinct (map fst months_map) \<Longrightarrow> fst ` set months_map \<inter> fst ` set acc = {} \<Longrightarrow>
   fold (\<lambda>(mon, info) months. AList.update mon info months) months_map acc = acc @ months_map"
proof (induction months_map arbitrary: acc)
  case Nil
  then show ?case by simp
next
  case (Cons p ps)
  obtain mon info where p: "p = (mon, info)" by (cases p)
  from Cons.prems p have new: "mon \<notin> fst ` set acc" by auto
  have "fst ` set ps \<inter> fst ` set (acc @ [(mon, info)]) = {}"
    using Cons.prems p by auto
  with Cons.IH [of "acc @ [(mon, info)]"] Cons.prems(1)
  show ?case using p new by (simp add: update_new)
qed

lemma year_data_rows:
  assumes "distinct (map fst months_map)"
  shows "y_months (year_data y months_map) = months_map \<and>
         y_rows (year_data y months_map) = sum_list (map (\<lambda>(mon, info). info_rows info) months_map)"
  using fold_update_new [OF assms, of "[]"] by (simp add: year_data_def fold_rows)

lemma group_years_lookup:
  assumes "distinct (map fst infos)" and "distinct (map fst years)"
    and "\<forall>(y, mm) \<in> set years. fst ` set mm \<inter> fst ` set infos = {}"
  shows "distinct (map fst (group_years infos years)) \<and>
         map_of (group_years infos years) y =
           (if filter (\<lambda>(m, i). year_of m = y) infos = [] then map_of years y
            else Some ((case map_of years y of None \<Rightarrow> [] | Some mm \<Rightarrow> mm)
                       @ filter (\<lambda>(m, i). year_of m = y) infos))"
  using assms
proof (induction infos arbitrary: years)
  case Nil
  then show ?case by simp
next
  case (Cons p rest)
  obtain mon info where p: "p = (mon, info)" by (cases p)
  define mm0 where "mm0 = (case map_of years (year_of mon) of None \<Rightarrow> [] | Some mm \<Rightarrow> mm)"
  define years' where "years' = AList.update (year_of mon) (AList.update mon info mm0) years"
  have mm0_keys: "fst ` set mm0 \<inter> fst ` set (p # rest) = {}"
  proof (cases "map_of years (year_of mon)")
    case None
    then show ?thesis by (simp add: mm0_def)
  next
    case (Some mm)
    then have "(year_of mon, mm) \<in> set years" by (rule map_of_SomeD)
    with Cons.prems(3) have "fst ` set mm \<inter> fst ` set (p # rest) = {}" by blast
    with Some show ?thesis by (simp add: mm0_def)
  qed
  then have new: "mon \<notin> fst ` set mm0" using p by auto
  have upd: "AList.update mon info mm0 = mm0 @ [(mon, info)]"
    using new by (rule update_new)
  have d': "distinct (map fst years')"
    using Cons.prems(2) by (simp add: years'_def distinct_update)
  have rest_d: "distinct (map fst rest)" and mon_rest: "mon \<notin> fst ` set rest"
    using Cons.prems(1) p by auto
  have disj': "\<forall>(y, mm) \<in> set years'. fst ` set mm \<inter> fst ` set rest = {}"
  proof -
    have "fst ` set mm \<inter> fst ` set rest = {}" if "(y, mm) \<in> set years'" for y mm
    proof -
      from that set_update_subset [of "year_of mon" "mm0 @ [(mon, info)]" years]
      have "(y, mm) = (year_of mon, mm0 @ [(mon, info)]) \<or> (y, mm) \<in> set years"
        by (auto simp: years'_def upd)
      then show ?thesis
      proof
        assume "(y, mm) = (year_of mon, mm0 @ [(mon, info)])"
        then show ?thesis using mm0_keys mon_rest by auto
      next
        assume "(y, mm) \<in> set years"
        with Cons.prems(3) have "fst ` set mm \<inter> fst ` set (p # rest) = {}" by blast
        then show ?thesis by auto
      qed
    qed
    then show ?thesis by auto
  qed
  have look': "map_of years' y =
      (if y = year_of mon then Some (mm0 @ [(mon, info)]) else map_of years y)"
    by (simp add: years'_def upd update_conv')
  have step: "group_years (p # rest) years = group_years rest years'"
    by (simp add: p years'_def mm0_def)
  from Cons.IH [OF rest_d d' disj'] have
    IH1: "distinct (map fst (group_years rest years'))" and
    IH2: "map_of (group_years rest years') y =
           (if filter (\<lambda>(m, i). year_of m = y) rest = [] then map_of years' y
            else Some ((case map_of years' y of None \<Rightarrow> [] | Some mm \<Rightarrow> mm)
                       @ filter (\<lambda>(m, i). year_of m = y) rest))"
    by simp_all
  show ?case
  proof (cases "y = year_of mon")
    case True
    then show ?thesis
      unfolding step using IH1 IH2 look' by (simp add: p mm0_def)
  next
    case False
    then show ?thesis
      unfolding step using IH1 IH2 look' by (simp add: p)
  qed
qed

lemma year_manifest_yaml_inj:
  "year_manifest_yaml base tf y = year_manifest_yaml base tf y' \<longleftrightarrow> y = y'"
  by (simp add: year_manifest_yaml_def)

lemma fold_year_manifests:
  assumes "distinct (map fst G)"
  shows "year_manifests
           (fold (\<lambda>(y, months_map) st.
                    st\<lparr>year_manifests :=
                         (year_manifests st)(year_manifest_yaml base tf y \<mapsto> year_data y months_map)\<rparr>)
              G st)
           (year_manifest_yaml base tf y)
         = (case map_of G y of
              Some months_map \<Rightarrow> Some (year_data y months_map)
            | None \<Rightarrow> year_manifests st (year_manifest_yaml base tf y))"
  using assms
proof (induction G arbitrary: st)
  case Nil
  then show ?case by simp
next
  case (Cons g G)
  obtain y' mm where g: "g = (y', mm)" by (cases g)
  from Cons.prems g have "map_of G y' = None" and "distinct (map fst G)"
    by (auto simp: map_of_eq_None_iff)
  with Cons.IH show ?case
    by (simp add: g year_manifest_yaml_inj split: option.splits)
qed

lemma import_months_distinct:
  "distinct (map fst month_infos) \<Longrightarrow>
   distinct (map fst (snd (import_months base tf dry_run force months (st, month_infos))))"
proof (induction months arbitrary: st month_infos)
  case Nil
  then show ?case by simp
next
  case (Cons m months)
  obtain mon fps where m: "m = (mon, fps)" by (cases m)
  show ?case
    using Cons.IH Cons.prems
    by (auto simp: m distinct_update split: prod.splits option.splits)
qed

text \<open>
  The two-month scenario: each bundle is read back as its frame, and each month's
  partition, fresh before the import, holds exactly the rows of its own bundle. The ten
  rows the two bundles share are stored in both partitions.
\<close>

lemma map_filter_as_bundle:
  "List.map_filter (\<lambda>(ot, v). map_option (\<lambda>t. (t, v)) ot) (as_bundle df) = df"
  by (induction df) (auto simp: as_bundle_def)

lemma map_filter_to_datetime:
  "\<forall>t \<in> fst ` set df. to_datetime u t = Some t \<Longrightarrow>
   List.map_filter (\<lambda>(t, v). map_option (\<lambda>d. (d, v)) (to_datetime u t)) df = df"
  by (induction df) auto

lemma read_bundle_csv_micro:
  assumes "df \<noteq> []" and "\<forall>t \<in> fst ` set df. 10 ^ 14 < t \<and> t * 1000 < 2 ^ 63"
  shows "read_bundle_csv (as_bundle df) = df"
proof -
  from assms(2) have range: "\<forall>x \<in> set (map fst df). - (2 ^ 63) < x" by auto
  from assms(1) obtain r where r: "r \<in> set df" by (cases df) auto
  with assms(2) have big: "10 ^ 14 < \<bar>fst r\<bar>" by auto
  have "\<bar>fst r\<bar> \<le> Max (abs ` set (map fst df))"
    using r by (intro Max_ge) auto
  with big assms(1) have "10 ^ 14 < max_ot (map fst df)"
    by (simp add: max_ot_abs [OF range])
  then have u: "open_time_unit (max_ot (map fst df)) = Microseconds"
    by (simp add: open_time_unit_def)
  have "\<forall>t \<in> fst ` set df. to_datetime Microseconds t = Some t"
    using assms(2) by (auto simp: to_datetime_def)
  then show ?thesis
    by (simp add: read_bundle_csv_def map_filter_as_bundle u map_filter_to_datetime)
qed

lemma minute_rows_sorted: "sorted_wrt (<) (map fst (minute_rows start n))"
proof -
  have "sorted_wrt (\<lambda>i j. start + int i * 60000000 < start + int j * 60000000) [0..<n]"
    by (rule sorted_wrt_mono_rel [OF _ sorted_wrt_upt]) simp
  then show ?thesis
    by (simp add: minute_rows_def sorted_wrt_map)
qed

lemma length_minute_rows: "length (minute_rows start n) = n"
  by (simp add: minute_rows_def)

lemma minute_rows_range:
  "t \<in> fst ` set (minute_rows start n) \<Longrightarrow> start \<le> t \<and> t < start + int n * 60000000"
  by (auto simp: minute_rows_def)

lemma read_minute_rows:
  assumes "0 < n" and "10 ^ 14 < start" and "(start + int n * 60000000) * 1000 \<le> 2 ^ 63"
  shows "read_bundle_csv (as_bundle (minute_rows start n)) = minute_rows start n"
proof (rule read_bundle_csv_micro)
  from assms(1) show "minute_rows start n \<noteq> []"
    using length_minute_rows [of start n] by auto
  show "\<forall>t \<in> fst ` set (minute_rows start n). 10 ^ 14 < t \<and> t * 1000 < 2 ^ 63"
    using minute_rows_range [of _ start n] assms(2,3) by fastforce
qed

lemma month_combined_fresh:
  "sorted_wrt (<) (map fst df) \<Longrightarrow> month_combined [] df = df"
  by (simp add: month_combined_def keep_last_distinct sort_index_sorted strict_sorted_iff)

lemma read_january: "read_bundle_csv (as_bundle january_rows) = january_rows"
  unfolding january_rows_def by (rule read_minute_rows) simp_all

lemma read_february: "read_bundle_csv (as_bundle february_rows) = february_rows"
  unfolding february_rows_def by (rule read_minute_rows) simp_all

lemma scenario_overlap: "drop 990 january_rows = take 10 february_rows"
proof -
  have "drop 990 january_rows = map (\<lambda>i. (1706686200000000 + int i * 60000000, flat_candle 1)) [990..<1000]"
    by (simp add: january_rows_def minute_rows_def drop_map)
  also have "[990..<1000] = map (\<lambda>i. i + 990) [0..<10]"
    by (simp add: map_add_upt)
  also have "map (\<lambda>i. (1706686200000000 + int i * 60000000, flat_candle 1)) (map (\<lambda>i. i + 990) [0..<10])
     = map (\<lambda>i. (1706745600000000 + int i * 60000000, flat_candle 1)) [0..<10]"
    by simp
  also have "\<dots> = take 10 february_rows"
    by (simp add: february_rows_def minute_rows_def take_map)
  finally show ?thesis .
qed

lemma scenario_import:
  "snd (import_symbol ''BTC'' ''1m'' False False scenario_months empty_import_store)
     = [(''2024-01'', \<lparr>info_rows = 1000, info_start_date = index_min january_rows,
                        info_end_date = index_max january_rows\<rparr>),
        (''2024-02'', \<lparr>info_rows = 900, info_start_date = index_min february_rows,
                        info_end_date = index_max february_rows\<rparr>)] \<and>
   partitions (fst (import_symbol ''BTC'' ''1m'' False False scenario_months empty_import_store))
     (partition_csv ''BTC'' ''1m'' ''2024-01'') = Some january_rows \<and>
   partitions (fst (import_symbol ''BTC'' ''1m'' False False scenario_months empty_import_store))
     (partition_csv ''BTC'' ''1m'' ''2024-02'') = Some february_rows"
proof -
  have j: "month_combined [] january_rows = january_rows"
    unfolding january_rows_def by (rule month_combined_fresh) (rule minute_rows_sorted)
  have f: "month_combined [] february_rows = february_rows"
    unfolding february_rows_def by (rule month_combined_fresh) (rule minute_rows_sorted)
  have lj: "length january_rows = 1000" by (simp add: january_rows_def length_minute_rows)
  have lf: "length february_rows = 900" by (simp add: february_rows_def length_minute_rows)
  have sorted_months: "sort_key fst scenario_months =
     [(''2024-01'', [(''BTCUSDT-1m-2024-01'', Some (as_bundle january_rows))]),
      (''2024-02'', [(''BTCUSDT-1m-2024-02'', Some (as_bundle february_rows))])]"
    by (simp add: scenario_months_def)
  have paths: "partition_csv ''BTC'' ''1m'' ''2024-01'' \<noteq> partition_csv ''BTC'' ''1m'' ''2024-02''"
    by (simp add: partition_csv_def partition_dir_def year_of_def)
  show ?thesis
    using paths
    by (simp add: import_symbol_def sorted_months import_month_def ends_with_def
          write_month_partition_def empty_import_store_def read_january read_february
          j f lj lf Let_def write_year_manifests_def)
qed

text \<open>
  C6. After an import that is not a dry run, for every month the importer has processed
  the yearly manifest of the month's year exists, lists exactly the processed months of
  that year, and its total \<^verbatim>\<open>rows\<close> is the sum of the \<^verbatim>\<open>rows\<close> of the months it lists.
  In the scenario of a 2024-01 bundle of 1000 rows and a 2024-02 bundle of 900 rows the
  partitions hold 1000 and 900 rows and the manifest of 2024 reports 1900.
\<close>

theorem yearly_rollup_rows:
  assumes "import_symbol base tf False force months st = (st', month_infos)"
    and "(mon, info) \<in> set month_infos"
  shows "\<exists>ydata.
           year_manifests st' (year_manifest_yaml base tf (year_of mon)) = Some ydata \<and>
           y_months ydata = filter (\<lambda>(m, i). year_of m = year_of mon) month_infos \<and>
           y_rows ydata = sum_list (map (\<lambda>(m, i). info_rows i) (y_months ydata))"
proof -
  let ?r = "import_months base tf False force (sort_key fst months) (st, [])"
  let ?y = "year_of mon"
  let ?mine = "filter (\<lambda>(m, i). year_of m = ?y) month_infos"
  from assms(1) have infos: "snd ?r = month_infos"
    and st': "st' = write_year_manifests base tf False month_infos (fst ?r)"
    by (auto simp: import_symbol_def Let_def)
  have d: "distinct (map fst month_infos)"
    using import_months_distinct [of "[]" base tf False force "sort_key fst months" st] infos
    by simp
  from assms(2) have mine: "?mine \<noteq> []"
    by (auto simp: filter_empty_conv)
  have G: "distinct (map fst (group_years month_infos [])) \<and>
           map_of (group_years month_infos []) ?y = Some ?mine"
    using group_years_lookup [OF d, of "[]" ?y] mine by simp
  from assms(2) have ne: "month_infos \<noteq> []" by auto
  have "year_manifests st' (year_manifest_yaml base tf ?y) = Some (year_data ?y ?mine)"
    using G ne by (simp add: st' write_year_manifests_def fold_year_manifests)
  moreover have "distinct (map fst ?mine)"
    using d by (simp add: distinct_map_filter)
  ultimately show ?thesis
    using year_data_rows [of ?mine ?y] by simp
qed

theorem yearly_rollup_rows_witness:
  "map (\<lambda>(m, i). info_rows i)
     (snd (import_symbol ''BTC'' ''1m'' False False scenario_months empty_import_store))
     = [1000, 900] \<and>
   map_option length
     (partitions (fst (import_symbol ''BTC'' ''1m'' False False scenario_months empty_import_store))
        (partition_csv ''BTC'' ''1m'' ''2024-01'')) = Some 1000 \<and>
   map_option length
     (partitions (fst (import_symbol ''BTC'' ''1m'' False False scenario_months empty_import_store))
        (partition_csv ''BTC'' ''1m'' ''2024-02'')) = Some 900 \<and>
   map_option y_rows
     (year_manifests (fst (import_symbol ''BTC'' ''1m'' False False scenario_months empty_import_store))
        (year_manifest_yaml ''BTC'' ''1m'' ''2024'')) = Some 1900"
proof -
  let ?jan = "\<lparr>info_rows = 1000, info_start_date = index_min january_rows,
                 info_end_date = index_max january_rows\<rparr>"
  let ?feb = "\<lparr>info_rows = 900, info_start_date = index_min february_rows,
                 info_end_date = index_max february_rows\<rparr>"
  obtain st' infos where
    r: "import_symbol ''BTC'' ''1m'' False False scenario_months empty_import_store = (st', infos)"
    by (cases "import_symbol ''BTC'' ''1m'' False False scenario_months empty_import_store")
  from scenario_import r have infos: "infos = [(''2024-01'', ?jan), (''2024-02'', ?feb)]"
    and pj: "partitions st' (partition_csv ''BTC'' ''1m'' ''2024-01'') = Some january_rows"
    and pf: "partitions st' (partition_csv ''BTC'' ''1m'' ''2024-02'') = Some february_rows"
    by simp_all
  from infos have mem: "(''2024-01'', ?jan) \<in> set infos" by simp
  have y: "year_of ''2024-01'' = ''2024''" "year_of ''2024-02'' = ''2024''"
    by (simp_all add: year_of_def)
  from yearly_rollup_rows [OF r mem] obtain ydata where
    "year_manifests st' (year_manifest_yaml ''BTC'' ''1m'' ''2024'') = Some ydata"
    "y_months ydata = filter (\<lambda>(m, i). year_of m = ''2024'') infos"
    "y_rows ydata = sum_list (map (\<lambda>(m, i). info_rows i) (y_months ydata))"
    by (auto simp: y)
  then have "map_option y_rows (year_manifests st' (year_manifest_yaml ''BTC'' ''1m'' ''2024''))
      = Some 1900"
    by (simp add: infos y)
  then show ?thesis
    using r infos pj pf
    by (simp add: january_rows_def february_rows_def length_minute_rows)
qed

end
